theory Spec2Isabelle
  imports Main "HOL-Library.AList"
begin

section \<open>Values, exceptions and platform calls\<close>

text \<open>
  JSON documents exchanged with the Matrix homeserver. A Python dict is an association
  list in insertion order: \<open>map_of\<close> reads a key, \<open>AList.update\<close> assigns one
  (in place when the key exists, appended otherwise). Numbers are integers.
\<close>

datatype json =
    JNull
  | JBool bool
  | JInt int
  | JStr string
  | JArr "json list"
  | JObj "(string \<times> json) list"

text \<open>The exceptions the code raises or catches. \<open>MatrixRequestError code content\<close>.\<close>

datatype exn =
    MatrixRequestError int string
  | SlackerError
  | KeyError
  | IndexError
  | TypeError
  | AttributeError
  | OtherError string

text \<open>A Slack channel as \<open>channels.list\<close> returns it.\<close>

record channel =
  c_id :: string
  c_name :: string
  is_archived :: bool
  topic_value :: string

text \<open>
  Every call the skill issues to a collaborator: the Slack client, the Matrix client
  and \<open>message.respond\<close>. The history of calls is the observable behaviour.
\<close>

datatype call =
    SlackChannelsList
  | SlackConversationsMembers string
  | SlackChannelsInvite string "string option"
  | SlackGetUserId string
  | GetRoomId string
  | CreateRoom string
  | JoinRoom string
  | JoinedRooms
  | InviteUser string string
  | SetRoomName string string
  | SetRoomTopic string string
  | SendStateEvent string string json
  | GetStateEvent string string
  | GetPowerLevels string
  | SetPowerLevels string "(string \<times> json) list"
  | GetGroupProfile string
  | CreateGroup string
  | GetUsersInGroup string
  | GetRoomsInGroup string
  | AddRoomToGroup string string
  | GetRoomState string
  | Respond string string "string option"

text \<open>What a call returns, at the type its API documents.\<close>

datatype resp =
    RNone
  | RStr string
  | RStrs "string list"
  | RChannels "channel list"
  | RDict "(string \<times> json) list"
  | RUsers "(string \<times> bool) list"

type_synonym hist = "call list"

text \<open>
  The outside world: the answer to a call may depend on every call issued before it.
\<close>

type_synonym world = "hist \<Rightarrow> call \<Rightarrow> exn + resp"

text \<open>
  A coroutine of the skill: it runs from a history, returns a value or raises, and
  leaves the extended history.
\<close>

type_synonym 'a io = "hist \<Rightarrow> (exn + 'a) \<times> hist"

definition io_return :: "'a \<Rightarrow> 'a io" where
  "io_return v = (\<lambda>t. (Inr v, t))"

definition io_raise :: "exn \<Rightarrow> 'a io" where
  "io_raise e = (\<lambda>t. (Inl e, t))"

definition io_bind :: "'a io \<Rightarrow> ('a \<Rightarrow> 'b io) \<Rightarrow> 'b io" where
  "io_bind m f = (\<lambda>t. case m t of (Inl e, t') \<Rightarrow> (Inl e, t') | (Inr v, t') \<Rightarrow> f v t')"

text \<open>\<open>try: m except: h\<close>; a handler that does not match re-raises.\<close>

definition io_try :: "'a io \<Rightarrow> (exn \<Rightarrow> 'a io) \<Rightarrow> 'a io" where
  "io_try m h = (\<lambda>t. case m t of (Inl e, t') \<Rightarrow> h e t' | (Inr v, t') \<Rightarrow> (Inr v, t'))"

definition api :: "world \<Rightarrow> call \<Rightarrow> resp io" where
  "api w c = (\<lambda>t. (w t c, t @ [c]))"

text \<open>A response of another shape than the caller uses raises \<open>TypeError\<close>.\<close>

fun expect_str :: "resp \<Rightarrow> string io" where
  "expect_str (RStr s) = io_return s"
| "expect_str _ = io_raise TypeError"

text \<open>An id that may be \<open>None\<close>.\<close>

fun expect_opt_str :: "resp \<Rightarrow> string option io" where
  "expect_opt_str RNone = io_return None"
| "expect_opt_str (RStr s) = io_return (Some s)"
| "expect_opt_str _ = io_raise TypeError"

fun expect_strs :: "resp \<Rightarrow> string list io" where
  "expect_strs (RStrs s) = io_return s"
| "expect_strs _ = io_raise TypeError"

fun expect_channels :: "resp \<Rightarrow> channel list io" where
  "expect_channels (RChannels cs) = io_return cs"
| "expect_channels _ = io_raise TypeError"

fun expect_dict :: "resp \<Rightarrow> (string \<times> json) list io" where
  "expect_dict (RDict d) = io_return d"
| "expect_dict _ = io_raise TypeError"

fun expect_users :: "resp \<Rightarrow> (string \<times> bool) list io" where
  "expect_users (RUsers us) = io_return us"
| "expect_users _ = io_raise TypeError"

section \<open>Configuration\<close>

text \<open>
  The skill's configuration. Keys read with \<open>config[...]\<close> are fields; keys read
  with \<open>config.get\<close> are optional (\<open>config_room\<close> is the key \<open>room\<close>).
\<close>

record config =
  slack_bot_token :: string
  slack_user_token :: string
  bridge_bot_name :: string
  room_alias_prefix :: string
  server_name :: string
  community_id :: string
  as_userid :: string
  config_room :: "string option"
  make_public :: "bool option"
  room_name_prefix :: "string option"
  related_groups :: "string list option"
  room_avatar_url :: "string option"
  users_as_admin :: "string list option"
  room_pl_0 :: "bool option"
  users_to_invite :: "string list option"
  invite_communtiy_to_rooms :: "bool option"

text \<open>A Ledger entry: channel id to (channel name, room alias, topic).\<close>

type_synonym ledger = "(string \<times> (string \<times> string \<times> string)) list"

section \<open>Channel discovery (picard.py, lines 39-70)\<close>

definition get_channel_mapping :: "world \<Rightarrow> (string \<times> string) list io" where
  "get_channel_mapping w =
     io_bind (api w SlackChannelsList) (\<lambda>response.
     io_bind (expect_channels response) (\<lambda>channels.
     io_return (foldl (\<lambda>d c. AList.update (c_id c) (c_name c) d) [] channels)))"

text \<open>The \<open>for channel in channels\<close> loop of \<open>get_new_channels\<close>.\<close>

fun get_new_channels_loop ::
  "world \<Rightarrow> config \<Rightarrow> ledger \<Rightarrow> channel list \<Rightarrow> ledger \<Rightarrow> ledger io" where
  "get_new_channels_loop w cfg seen_channels [] new_channels = io_return new_channels"
| "get_new_channels_loop w cfg seen_channels (channel # channels) new_channels =
     (if is_archived channel then
        get_new_channels_loop w cfg seen_channels channels new_channels
      else if c_id channel \<notin> set (map fst seen_channels) then
        io_bind (get_channel_mapping w) (\<lambda>mapping.
          case map_of mapping (c_id channel) of
            None \<Rightarrow> io_raise KeyError
          | Some channel_name \<Rightarrow>
              (let prefix = room_alias_prefix cfg;
                   server = server_name cfg;
                   alias = ''#'' @ prefix @ channel_name @ '':'' @ server;
                   topic = topic_value channel
               in get_new_channels_loop w cfg seen_channels channels
                    (AList.update (c_id channel) (channel_name, alias, topic) new_channels)))
      else get_new_channels_loop w cfg seen_channels channels new_channels)"

definition get_new_channels :: "world \<Rightarrow> config \<Rightarrow> ledger \<Rightarrow> ledger io" where
  "get_new_channels w cfg seen_channels =
     io_bind (api w SlackChannelsList) (\<lambda>response.
     io_bind (expect_channels response) (\<lambda>channels.
     get_new_channels_loop w cfg seen_channels channels []))"

text \<open>
  The closed form of the discovery loop, used to state what it computes: the channels
  that are not archived and not in the Ledger, each entered under the name the channel
  mapping gives its id.
\<close>

definition is_new :: "ledger \<Rightarrow> channel \<Rightarrow> bool" where
  "is_new seen c \<longleftrightarrow> \<not> is_archived c \<and> c_id c \<notin> set (map fst seen)"

definition entry_of :: "config \<Rightarrow> (string \<times> string) list \<Rightarrow> channel \<Rightarrow> string \<times> string \<times> string" where
  "entry_of cfg mapping c =
     (let n = the (map_of mapping (c_id c))
      in (n, ''#'' @ room_alias_prefix cfg @ n @ '':'' @ server_name cfg, topic_value c))"

definition discovered :: "config \<Rightarrow> ledger \<Rightarrow> (string \<times> string) list \<Rightarrow> channel list \<Rightarrow> ledger \<Rightarrow> ledger" where
  "discovered cfg seen mapping cs new =
     foldl (\<lambda>new c. if is_new seen c then AList.update (c_id c) (entry_of cfg mapping c) new else new) new cs"

text \<open>A small workspace: one live channel, one archived channel.\<close>

definition example_channels :: "channel list" where
  "example_channels =
     [\<lparr>c_id = ''C1'', c_name = ''general'', is_archived = False, topic_value = ''talk''\<rparr>,
      \<lparr>c_id = ''C2'', c_name = ''old'', is_archived = True, topic_value = ''''\<rparr>]"

definition example_config :: config where
  "example_config =
     \<lparr>slack_bot_token = ''xb'', slack_user_token = ''xu'', bridge_bot_name = ''bot'',
      room_alias_prefix = ''br-'', server_name = ''example.org'', community_id = ''+c:example.org'',
      as_userid = ''@as:example.org'', config_room = None, make_public = Some False,
      room_name_prefix = None, related_groups = None, room_avatar_url = None,
      users_as_admin = None, room_pl_0 = None, users_to_invite = None,
      invite_communtiy_to_rooms = None\<rparr>"

definition listing_world :: world where
  "listing_world = (\<lambda>t c. case c of SlackChannelsList \<Rightarrow> Inr (RChannels example_channels) | _ \<Rightarrow> Inr RNone)"

section \<open>Power levels (picard.py, lines 212-235)\<close>

type_synonym pydict = "(string \<times> json) list"

text \<open>
  \<open>power_levels['users']\<close> raises \<open>KeyError\<close> when the key is missing and
  \<open>.get\<close> raises \<open>AttributeError\<close> when the value is not a dict. The assignment
  mutates the inner dict where it stands.
\<close>

definition user_is_room_admin :: "pydict \<Rightarrow> string \<Rightarrow> string \<Rightarrow> exn + pydict" where
  "user_is_room_admin power_levels room_alias mxid =
     (case map_of power_levels ''users'' of
        None \<Rightarrow> Inl KeyError
      | Some (JObj users) \<Rightarrow>
          (let user_pl = map_of users mxid
           in if user_pl \<noteq> Some (JInt 100)
              then Inr (AList.update ''users'' (JObj (AList.update mxid (JInt 100) users)) power_levels)
              else Inr power_levels)
      | Some _ \<Rightarrow> Inl AttributeError)"

text \<open>Item assignment on a value that is not a dict raises \<open>TypeError\<close>.\<close>

definition room_notifications_pl0 :: "pydict \<Rightarrow> string \<Rightarrow> exn + pydict" where
  "room_notifications_pl0 power_levels room_alias =
     (case (case map_of power_levels ''notifications'' of None \<Rightarrow> JObj [] | Some n \<Rightarrow> n) of
        JObj notifications \<Rightarrow>
          Inr (AList.update ''notifications''
                 (JObj (AList.update ''room'' (JInt 0) notifications)) power_levels)
      | _ \<Rightarrow> Inl TypeError)"

text \<open>A power-level document with an unrelated key and a second notification entry.\<close>

definition example_power_levels :: pydict where
  "example_power_levels =
     [(''users'', JObj [(''@a:x'', JInt 50)]),
      (''ban'', JInt 50),
      (''notifications'', JObj [(''room'', JInt 50), (''other'', JInt 10)])]"

section \<open>Rooms and membership (picard.py, lines 82-150)\<close>

definition startswith :: "string \<Rightarrow> string \<Rightarrow> bool" where
  "startswith s p = (take (length p) s = p)"

text \<open>\<open>p in s\<close> on strings.\<close>

fun contains :: "string \<Rightarrow> string \<Rightarrow> bool" where
  "contains [] p = (p = [])"
| "contains (c # s) p = (startswith (c # s) p \<or> contains s p)"

text \<open>\<open>room.split(':')[0][1:]\<close>\<close>

definition local_part :: "string \<Rightarrow> string" where
  "local_part room = drop 1 (takeWhile (\<lambda>c. c \<noteq> CHR '':'') room)"

definition room_id_if_exists :: "world \<Rightarrow> string \<Rightarrow> string option io" where
  "room_id_if_exists w room_alias =
     (if startswith room_alias ''!'' then io_return (Some room_alias)
      else io_try
        (io_bind (api w (GetRoomId room_alias)) (\<lambda>r.
         io_bind (expect_str r) (\<lambda>room_id. io_return (Some room_id))))
        (\<lambda>e. case e of
           MatrixRequestError code content \<Rightarrow>
             if code \<noteq> 404 then io_raise e else io_return None
         | _ \<Rightarrow> io_raise e))"

definition joined_rooms :: "world \<Rightarrow> string list io" where
  "joined_rooms w = io_bind (api w JoinedRooms) expect_strs"

definition is_in_matrix_room :: "world \<Rightarrow> string \<Rightarrow> bool io" where
  "is_in_matrix_room w room_id =
     io_bind (joined_rooms w) (\<lambda>rooms. io_return (room_id \<in> set rooms))"

text \<open>
  Calling an \<open>async def\<close> without \<open>await\<close> yields a coroutine object and runs
  nothing. A coroutine object defines neither \<open>__bool__\<close> nor \<open>__len__\<close>, so
  it is true in a condition.
\<close>

datatype 'a coroutine = Coroutine "'a io"

definition truthy_coroutine :: "'a coroutine \<Rightarrow> bool" where
  "truthy_coroutine c = True"

definition intent_self_in_room :: "world \<Rightarrow> string \<Rightarrow> string io" where
  "intent_self_in_room w room =
     io_bind (room_id_if_exists w room) (\<lambda>room_id.
       case room_id of
         None \<Rightarrow>
           io_bind
             (io_try (io_bind (api w (CreateRoom (local_part room))) expect_str)
                (\<lambda>e. case e of
                   MatrixRequestError code content \<Rightarrow>
                     io_bind (api w (GetRoomId room)) expect_str
                 | _ \<Rightarrow> io_raise e))
             (\<lambda>room_id. io_bind (api w (JoinRoom room_id)) (\<lambda>respjson. io_return room_id))
       | Some room_id \<Rightarrow>
           (let is_in_room = Coroutine (is_in_matrix_room w room_id)
            in if \<not> truthy_coroutine is_in_room
               then io_bind (api w (JoinRoom room_id)) (\<lambda>respjson. io_return room_id)
               else io_return room_id))"

definition intent_user_in_room :: "world \<Rightarrow> string \<Rightarrow> string \<Rightarrow> string option io" where
  "intent_user_in_room w user room =
     io_bind (room_id_if_exists w room) (\<lambda>room_id.
       case room_id of
         None \<Rightarrow> io_return None
       | Some rid \<Rightarrow>
           io_try (io_bind (api w (InviteUser rid user)) (\<lambda>_. io_return (Some rid)))
             (\<lambda>e. case e of
                MatrixRequestError code content \<Rightarrow>
                  if contains content ''already in the room'' then io_return (Some rid)
                  else io_return None
              | _ \<Rightarrow> io_raise e))"

text \<open>
  A homeserver where the alias \<open>#br-general:example.org\<close> resolves to the room
  \<open>!r1:example.org\<close> and the connector has joined no room.
\<close>

definition unjoined_world :: world where
  "unjoined_world = (\<lambda>t c. case c of
       GetRoomId a \<Rightarrow> Inr (RStr ''!r1:example.org'')
     | JoinedRooms \<Rightarrow> Inr (RStrs [])
     | _ \<Rightarrow> Inr RNone)"

section \<open>Related groups (picard.py, lines 264-306)\<close>

text \<open>Group ids are strings; a \<open>groups\<close> value of another shape raises.\<close>

fun json_strs :: "json list \<Rightarrow> string list option" where
  "json_strs [] = Some []"
| "json_strs (JStr s # js) = (case json_strs js of None \<Rightarrow> None | Some ss \<Rightarrow> Some (s # ss))"
| "json_strs (_ # js) = None"

definition get_related_groups :: "world \<Rightarrow> string \<Rightarrow> string list io" where
  "get_related_groups w roomid =
     io_try
       (io_bind (api w (GetStateEvent roomid ''m.room.related_groups'')) (\<lambda>r.
        io_bind (expect_dict r) (\<lambda>json.
          case map_of json ''groups'' of
            None \<Rightarrow> io_raise KeyError
          | Some (JArr gs) \<Rightarrow>
              (case json_strs gs of None \<Rightarrow> io_raise TypeError | Some groups \<Rightarrow> io_return groups)
          | Some _ \<Rightarrow> io_raise TypeError)))
       (\<lambda>e. case e of
          MatrixRequestError code content \<Rightarrow>
            if code \<noteq> 404 then io_raise e else io_return []
        | _ \<Rightarrow> io_raise e)"

definition set_related_groups :: "world \<Rightarrow> string \<Rightarrow> string list \<Rightarrow> resp io" where
  "set_related_groups w roomid communities =
     (let content = JObj [(''groups'', JArr (map JStr communities))]
      in api w (SendStateEvent roomid ''m.room.related_groups'' content))"

text \<open>
  \<open>list(set(xs))\<close>: each element once. Python leaves the order of the result
  unspecified; the model keeps the last occurrence of each element in place, and the
  properties proved below speak of the elements only.
\<close>

definition list_of_set :: "string list \<Rightarrow> string list" where
  "list_of_set xs = remdups xs"

definition update_related_groups :: "world \<Rightarrow> string \<Rightarrow> string list \<Rightarrow> resp io" where
  "update_related_groups w roomid communities =
     io_bind (get_related_groups w roomid) (\<lambda>existing_communities.
       (let existing_communities = existing_communities @ communities;
            new_groups = list_of_set existing_communities
        in set_related_groups w roomid new_groups))"

text \<open>A room whose related groups are A and B.\<close>

definition groups_world :: world where
  "groups_world = (\<lambda>t c. case c of
       GetStateEvent r ty \<Rightarrow> Inr (RDict [(''groups'', JArr [JStr ''+a:x'', JStr ''+b:x''])])
     | _ \<Rightarrow> Inr RNone)"

section \<open>Memory and chat commands (picard/commands.py)\<close>

text \<open>
  The persistent memory: the Ledger under \<open>seen_channels\<close>, the auto-invite list,
  and the options stored in the memory scoped to each room. \<open>put_log\<close> records the
  key of every \<open>put\<close>, in order.
\<close>

record memory =
  seen_channels :: "ledger option"
  autoinvite_users :: "string list option"
  picard_options :: "string \<Rightarrow> (string \<times> bool) list option"
  put_log :: "string list"

text \<open>
  The message that triggered a handler: \<open>raw_event['sender']\<close>, \<open>target\<close> and
  \<open>regex['flag']\<close>.
\<close>

record message =
  m_sender :: string
  m_target :: string
  m_flag :: string

definition respond :: "world \<Rightarrow> message \<Rightarrow> string \<Rightarrow> string option \<Rightarrow> unit io" where
  "respond w message text room_kw =
     io_bind (api w (Respond (m_target message) text room_kw)) (\<lambda>_. io_return ())"

definition on_auto_invite ::
  "world \<Rightarrow> message \<Rightarrow> memory \<Rightarrow> hist \<Rightarrow> ((exn + unit) \<times> hist) \<times> memory" where
  "on_auto_invite w message mem t =
     (let sender = m_sender message;
          users = (case autoinvite_users mem of None \<Rightarrow> [] | Some us \<Rightarrow> us)
      in if sender \<in> set users then
           (respond w message ''You already have autoinvite enabled.'' None t, mem)
         else
           (let users = users @ [sender];
                mem = mem\<lparr>autoinvite_users := Some users,
                          put_log := put_log mem @ [''autoinvite_users'']\<rparr>
            in (respond w message
                  ''You will be invited to all future rooms. Use !inviteall to get invites to existing rooms.''
                  None t, mem)))"

definition on_disable_auto_invite ::
  "world \<Rightarrow> message \<Rightarrow> memory \<Rightarrow> hist \<Rightarrow> ((exn + unit) \<times> hist) \<times> memory" where
  "on_disable_auto_invite w message mem t =
     (let sender = m_sender message;
          users = (case autoinvite_users mem of None \<Rightarrow> [] | Some us \<Rightarrow> us)
      in if sender \<notin> set users then
           (respond w message ''You do not have autoinvite enabled.'' None t, mem)
         else
           (let users = remove1 sender users;
                mem = mem\<lparr>autoinvite_users := Some users,
                          put_log := put_log mem @ [''autoinvite_users'']\<rparr>
            in (respond w message ''Autoinvite disabled.'' None t, mem)))"

text \<open>
  A run of auto-invite commands: each handler reads the memory the one before it left,
  whether that one returned or raised.
\<close>

datatype command = AutoInvite message | DisableAutoInvite message

fun run_commands :: "world \<Rightarrow> command list \<Rightarrow> memory \<Rightarrow> hist \<Rightarrow> memory \<times> hist" where
  "run_commands w [] mem t = (mem, t)"
| "run_commands w (AutoInvite m # cs) mem t =
     (case on_auto_invite w m mem t of ((r, t'), mem') \<Rightarrow> run_commands w cs mem' t')"
| "run_commands w (DisableAutoInvite m # cs) mem t =
     (case on_disable_auto_invite w m mem t of ((r, t'), mem') \<Rightarrow> run_commands w cs mem' t')"

text \<open>\<open>repr\<close> of a string, and of the tuple \<open>flags\<close> as the f-string prints it.\<close>

definition repr_str :: "string \<Rightarrow> string" where
  "repr_str s = [CHR 0x27] @ s @ [CHR 0x27]"

definition repr_flags :: "string list \<Rightarrow> string" where
  "repr_flags flags = ''('' @ foldr (\<lambda>f acc. repr_str f @ (if acc = [] then [] else '', '' @ acc)) flags [] @ '')''"

definition room_skip_command ::
  "world \<Rightarrow> config \<Rightarrow> message \<Rightarrow> bool \<Rightarrow> memory \<Rightarrow> hist \<Rightarrow> ((exn + unit) \<times> hist) \<times> memory" where
  "room_skip_command w cfg message skip mem t =
     (let sender = m_sender message
      in case users_as_admin cfg of
           None \<Rightarrow> ((Inl KeyError, t), mem)
         | Some admins \<Rightarrow>
             if sender \<notin> set admins then
               (respond w message ''You are not authorised to perform this action.'' None t, mem)
             else
               (let matrix_room_id = m_target message;
                    flag = m_flag message;
                    flags = [''name'', ''description'', ''avatar'']
                in case (if flag \<notin> set flags
                         then respond w message
                                (''The skip argument must be one of '' @ repr_flags flags
                                   @ '', not '' @ flag) None t
                         else (Inr (), t)) of
                     (Inl e, t1) \<Rightarrow> ((Inl e, t1), mem)
                   | (Inr u, t1) \<Rightarrow>
                       (let options = (case picard_options mem matrix_room_id of
                                         None \<Rightarrow> [] | Some os \<Rightarrow> os);
                            options = AList.update (''skip_room_'' @ flag) skip options;
                            mem = mem\<lparr>picard_options :=
                                        (picard_options mem)(matrix_room_id := Some options),
                                      put_log := put_log mem @ [''picard.options'']\<rparr>
                        in (respond w message ''Your room settings have been updated.'' None t1,
                            mem))))"

definition empty_memory :: memory where
  "empty_memory = \<lparr>seen_channels = None, autoinvite_users = None,
                    picard_options = (\<lambda>r. None), put_log = []\<rparr>"

definition quiet_world :: world where
  "quiet_world = (\<lambda>t c. Inr RNone)"

definition admin_config :: config where
  "admin_config = example_config\<lparr>users_as_admin := Some [''@admin:x'']\<rparr>"

text \<open>The auto-invite list as the handlers read it: \<open>get(...) or []\<close>.\<close>

definition users_of :: "memory \<Rightarrow> string list" where
  "users_of mem = (case autoinvite_users mem of None \<Rightarrow> [] | Some us \<Rightarrow> us)"

definition enrolled_memory :: memory where
  "enrolled_memory = empty_memory\<lparr>autoinvite_users := Some [''@a:x'', ''@b:x'']\<rparr>"

section \<open>The sweep (picard.py, lines 16-37 and 153-487)\<close>

text \<open>
  The Matrix connector \<open>get_matrix_connector\<close> finds: its own user id, its default
  room, and whether its client has the groups API (\<open>hasattr(..., "create_group")\<close>).
\<close>

record connector =
  mxid :: string
  default_room :: string
  has_create_group :: bool

definition io_of_result :: "exn + 'a \<Rightarrow> 'a io" where
  "io_of_result r = (\<lambda>t. (r, t))"

definition get_room_members :: "world \<Rightarrow> string \<Rightarrow> string list io" where
  "get_room_members w channel_id =
     io_bind (api w (SlackConversationsMembers channel_id)) expect_strs"

definition join_bot_to_channel ::
  "world \<Rightarrow> config \<Rightarrow> string option \<Rightarrow> string \<Rightarrow> unit io" where
  "join_bot_to_channel w cfg bot_id channel_id =
     io_bind (get_room_members w channel_id) (\<lambda>members.
       if bot_id \<notin> set (map Some members) then
         io_try (io_bind (api w (SlackChannelsInvite channel_id bot_id)) (\<lambda>_. io_return ()))
           (\<lambda>e. case e of SlackerError \<Rightarrow> io_return () | _ \<Rightarrow> io_raise e)
       else io_return ())"

text \<open>
  The \<open>try\<close> covers the profile lookup only; its handler returns from the function
  (\<open>Inr\<close>), the normal path carries the profile on (\<open>Inl\<close>). \<open>myself[0]\<close>
  raises \<open>IndexError\<close> when the connector is not among the group's users.
\<close>

definition admin_of_community :: "world \<Rightarrow> connector \<Rightarrow> string \<Rightarrow> string option io" where
  "admin_of_community w conn community =
     (if \<not> has_create_group conn then io_return None
      else
        io_bind
          (io_try
             (io_bind (api w (GetGroupProfile community)) (\<lambda>r.
              io_bind (expect_dict r) (\<lambda>profile. io_return (Inl profile))))
             (\<lambda>e. case e of
                MatrixRequestError code content \<Rightarrow>
                  if code \<noteq> 404 then io_raise e
                  else io_bind (api w (CreateGroup (local_part community))) (\<lambda>r.
                       io_bind (expect_str r) (\<lambda>group_id. io_return (Inr (Some group_id))))
              | _ \<Rightarrow> io_raise e))
          (\<lambda>x. case x of
             Inr returned \<Rightarrow> io_return returned
           | Inl profile \<Rightarrow>
               if profile \<noteq> [] then
                 io_bind (api w (GetUsersInGroup community)) (\<lambda>r.
                 io_bind (expect_users r) (\<lambda>users.
                   case filter (\<lambda>key. fst key = mxid conn) users of
                     [] \<Rightarrow> io_raise IndexError
                   | myself0 # _ \<Rightarrow>
                       if \<not> snd myself0 then io_return None else io_return (Some community)))
               else io_return (Some community)))"

text \<open>A room id of \<open>None\<close> cannot be put into a request path: \<open>TypeError\<close>.\<close>

definition set_power_levels :: "world \<Rightarrow> string \<Rightarrow> pydict \<Rightarrow> resp io" where
  "set_power_levels w room_alias power_levels =
     io_bind (room_id_if_exists w room_alias) (\<lambda>room_id.
       case room_id of
         None \<Rightarrow> io_raise TypeError
       | Some rid \<Rightarrow> api w (SetPowerLevels rid power_levels))"

definition get_power_levels :: "world \<Rightarrow> string \<Rightarrow> pydict io" where
  "get_power_levels w room_alias =
     io_bind (room_id_if_exists w room_alias) (\<lambda>room_id.
       case room_id of
         None \<Rightarrow> io_raise TypeError
       | Some rid \<Rightarrow> io_bind (api w (GetPowerLevels rid)) expect_dict)"

text \<open>The \<open>for user in users_as_admin\<close> loop of \<open>configure_room_power_levels\<close>.\<close>

fun add_admin_users :: "world \<Rightarrow> string \<Rightarrow> string list \<Rightarrow> pydict \<Rightarrow> pydict io" where
  "add_admin_users w room_id [] power_levels = io_return power_levels"
| "add_admin_users w room_id (user # users) power_levels =
     io_bind (intent_user_in_room w user room_id) (\<lambda>_.
     io_bind (io_of_result (user_is_room_admin power_levels room_id user)) (\<lambda>power_levels.
     add_admin_users w room_id users power_levels))"

text \<open>
  When the room does not resolve, \<open>room_id\<close> is \<open>None\<close> and the next call,
  \<open>get_power_levels(opsdroid, None)\<close>, raises \<open>AttributeError\<close> on
  \<open>None.startswith\<close>.
\<close>

definition configure_room_power_levels :: "world \<Rightarrow> config \<Rightarrow> string \<Rightarrow> unit io" where
  "configure_room_power_levels w cfg room_alias =
     io_bind (room_id_if_exists w room_alias) (\<lambda>room_id.
       case room_id of
         None \<Rightarrow> io_raise AttributeError
       | Some room_id \<Rightarrow>
           (let admins = (case users_as_admin cfg of None \<Rightarrow> [] | Some us \<Rightarrow> us);
                pl_0 = (case room_pl_0 cfg of None \<Rightarrow> False | Some b \<Rightarrow> b)
            in io_bind (get_power_levels w room_id) (\<lambda>power_levels.
               io_bind (add_admin_users w room_id admins power_levels) (\<lambda>power_levels.
               io_bind (if pl_0 then io_of_result (room_notifications_pl0 power_levels room_id)
                        else io_return power_levels) (\<lambda>power_levels.
               if admins \<noteq> [] \<or> pl_0
               then io_bind (set_power_levels w room_id power_levels) (\<lambda>_. io_return ())
               else io_return ())))))"

definition user_in_state :: "world \<Rightarrow> string \<Rightarrow> string \<Rightarrow> bool io" where
  "user_in_state w roomid user =
     io_bind (api w (GetRoomState roomid)) (\<lambda>r.
     io_bind (expect_strs r) (\<lambda>keys. io_return (user \<in> set keys)))"

text \<open>
  \<open>upload_image_to_matrix(self, image_url)\<close> takes two arguments and
  \<open>set_room_avatar\<close> calls it with one: the call raises \<open>TypeError\<close>.
\<close>

definition upload_image_to_matrix_call :: "string \<Rightarrow> string io" where
  "upload_image_to_matrix_call avatar_url = io_raise TypeError"

definition set_room_avatar :: "world \<Rightarrow> string \<Rightarrow> string \<Rightarrow> resp io" where
  "set_room_avatar w room_id avatar_url =
     io_bind (if \<not> startswith avatar_url ''mxc'' then upload_image_to_matrix_call avatar_url
              else io_return avatar_url) (\<lambda>avatar_url.
       api w (SendStateEvent room_id ''m.room.avatar'' (JObj [(''url'', JStr avatar_url)])))"

text \<open>
  The body of the \<open>for channel_id, (...) in new_channels.items()\<close> loop, cut at the
  source's comments. Lines 415-423: name, topic, avatar.
\<close>

definition set_name_topic_avatar ::
  "world \<Rightarrow> config \<Rightarrow> string \<Rightarrow> string \<Rightarrow> string \<Rightarrow> unit io" where
  "set_name_topic_avatar w cfg room_id channel_name topic =
     (let name_prefix = (case room_name_prefix cfg of
                           None \<Rightarrow> room_alias_prefix cfg | Some p \<Rightarrow> p);
          room_name = name_prefix @ channel_name
      in io_bind (api w (SetRoomName room_id room_name)) (\<lambda>_.
         io_bind (if topic \<noteq> [] then io_bind (api w (SetRoomTopic room_id topic)) (\<lambda>_. io_return ())
                  else io_return ()) (\<lambda>_.
         case room_avatar_url cfg of
           None \<Rightarrow> io_return ()
         | Some avatar_url \<Rightarrow>
             if avatar_url \<noteq> []
             then io_bind (set_room_avatar w room_id avatar_url) (\<lambda>_. io_return ())
             else io_return ())))"

text \<open>Lines 425-436: \<open>except Exception\<close> catches every exception of the model.\<close>

definition make_room_public ::
  "world \<Rightarrow> config \<Rightarrow> message \<Rightarrow> string \<Rightarrow> string \<Rightarrow> unit io" where
  "make_room_public w cfg message room_id room_alias =
     (if (case make_public cfg of None \<Rightarrow> True | Some b \<Rightarrow> b) then
        io_try
          (io_bind (api w (SendStateEvent room_id ''m.room.join_rules''
                             (JObj [(''join_rule'', JStr ''public'')]))) (\<lambda>_.
           io_bind (api w (SendStateEvent room_id ''m.room.history_visibility''
                             (JObj [(''history_visibility'', JStr ''world_readable'')]))) (\<lambda>_.
           io_return ())))
          (\<lambda>e. respond w message
                  (''ERROR: Could not make '' @ room_alias @ '' publically joinable.'') None)
      else io_return ())"

text \<open>The \<open>for user in config["users_to_invite"]\<close> loop.\<close>

fun invite_users :: "world \<Rightarrow> string \<Rightarrow> string list \<Rightarrow> unit io" where
  "invite_users w room_id [] = io_return ()"
| "invite_users w room_id (user # users) =
     io_bind (intent_user_in_room w user room_id) (\<lambda>_. invite_users w room_id users)"

text \<open>The \<open>for user in all_users['chunk']\<close> loop.\<close>

fun invite_community_users :: "world \<Rightarrow> string \<Rightarrow> (string \<times> bool) list \<Rightarrow> unit io" where
  "invite_community_users w room_id [] = io_return ()"
| "invite_community_users w room_id (user # users) =
     io_bind (user_in_state w room_id (fst user)) (\<lambda>in_room.
     io_bind (if \<not> in_room
              then io_bind (intent_user_in_room w (fst user) room_id) (\<lambda>_. io_return ())
              else io_return ()) (\<lambda>_.
     invite_community_users w room_id users))"

definition truthy_str :: "string option \<Rightarrow> bool" where
  "truthy_str s = (case s of None \<Rightarrow> False | Some x \<Rightarrow> x \<noteq> [])"

text \<open>Lines 445-479: what follows a successful appservice invite.\<close>

definition link_and_invite ::
  "world \<Rightarrow> config \<Rightarrow> message \<Rightarrow> string option \<Rightarrow> string list \<Rightarrow> string \<Rightarrow> string \<Rightarrow> string
     \<Rightarrow> unit io" where
  "link_and_invite w cfg message community rooms_in_community channel_id room_alias room_id =
     io_bind (configure_room_power_levels w cfg room_id) (\<lambda>_.
     io_bind (case related_groups cfg of
                None \<Rightarrow> io_return ()
              | Some groups \<Rightarrow>
                  if groups \<noteq> []
                  then io_bind (update_related_groups w room_id groups) (\<lambda>_. io_return ())
                  else io_return ()) (\<lambda>_.
     io_bind (respond w message
                (''link --channel_id '' @ channel_id @ '' --room '' @ room_id
                   @ '' --slack_bot_token '' @ slack_bot_token cfg
                   @ '' --slack_user_token '' @ slack_user_token cfg)
                (Some ''bridge'')) (\<lambda>_.
     io_bind (case users_to_invite cfg of
                None \<Rightarrow> io_return ()
              | Some users \<Rightarrow> invite_users w room_id users) (\<lambda>_.
     io_bind (if truthy_str community \<and> room_id \<notin> set rooms_in_community
              then io_try (io_bind (api w (AddRoomToGroup (the community) room_id))
                             (\<lambda>_. io_return ()))
                     (\<lambda>e. io_return ())
              else io_return ()) (\<lambda>_.
     io_bind (if truthy_str community
              then io_bind (api w (GetUsersInGroup (the community))) (\<lambda>r.
                   io_bind (expect_users r) (\<lambda>all_users.
                     if (case invite_communtiy_to_rooms cfg of None \<Rightarrow> False | Some b \<Rightarrow> b)
                     then invite_community_users w room_id all_users
                     else io_return ()))
              else io_return ()) (\<lambda>_.
     respond w message (''Finished Adding room '' @ room_alias) None))))))"

text \<open>
  One pass of the loop body for one entry of \<open>new_channels\<close>. A failed appservice
  invite reports and ends the pass (\<open>continue\<close>).
\<close>

definition mirror_channel ::
  "world \<Rightarrow> config \<Rightarrow> message \<Rightarrow> string option \<Rightarrow> string option \<Rightarrow> string list
     \<Rightarrow> string \<times> string \<times> string \<times> string \<Rightarrow> unit io" where
  "mirror_channel w cfg message bridge_bot_id community rooms_in_community entry =
     (case entry of (channel_id, channel_name, room_alias, topic) \<Rightarrow>
        io_bind (join_bot_to_channel w cfg bridge_bot_id channel_id) (\<lambda>_.
        io_bind (intent_self_in_room w room_alias) (\<lambda>room_id.
        io_bind (set_name_topic_avatar w cfg room_id channel_name topic) (\<lambda>_.
        io_bind (make_room_public w cfg message room_id room_alias) (\<lambda>_.
        io_bind (intent_user_in_room w (as_userid cfg) room_id) (\<lambda>room_id.
          case room_id of
            None \<Rightarrow>
              respond w message
                (''ERROR: Could not invite appservice bot'' @ ''to '' @ room_alias
                   @ '', skipping channel.'') None
          | Some room_id \<Rightarrow>
              link_and_invite w cfg message community rooms_in_community
                channel_id room_alias room_id))))))"

fun mirror_channels_loop ::
  "world \<Rightarrow> config \<Rightarrow> message \<Rightarrow> string option \<Rightarrow> string option \<Rightarrow> string list
     \<Rightarrow> ledger \<Rightarrow> unit io" where
  "mirror_channels_loop w cfg message bridge_bot_id community rooms_in_community [] =
     io_return ()"
| "mirror_channels_loop w cfg message bridge_bot_id community rooms_in_community (entry # rest) =
     io_bind (mirror_channel w cfg message bridge_bot_id community rooms_in_community entry)
       (\<lambda>_. mirror_channels_loop w cfg message bridge_bot_id community rooms_in_community rest)"

text \<open>
  Lines 375-405: what precedes the loop. \<open>slack.users.get_user_id\<close> answers
  \<open>None\<close> when the workspace has no user of that name, and the sweep goes on with
  it. The result is the bot's id, \<open>new_channels\<close>, the community and the rooms in it.
\<close>

definition sweep_prelude ::
  "world \<Rightarrow> connector \<Rightarrow> config \<Rightarrow> ledger
     \<Rightarrow> (string option \<times> ledger \<times> string option \<times> string list) io" where
  "sweep_prelude w conn cfg seen =
     io_bind (api w (SlackGetUserId (bridge_bot_name cfg))) (\<lambda>r.
     io_bind (expect_opt_str r) (\<lambda>bridge_bot_id.
     io_bind (get_new_channels w cfg seen) (\<lambda>new_channels.
     io_bind (admin_of_community w conn (community_id cfg)) (\<lambda>community.
     io_bind (if truthy_str community
              then io_bind (api w (GetRoomsInGroup (the community))) expect_strs
              else io_return []) (\<lambda>rooms_in_community.
     io_return (bridge_bot_id, new_channels, community, rooms_in_community))))))"

text \<open>
  Lines 367-479: everything before the Ledger write. It returns \<open>new_channels\<close>
  when the loop has run to its end.
\<close>

definition mirror_new_channels ::
  "world \<Rightarrow> connector \<Rightarrow> config \<Rightarrow> message \<Rightarrow> ledger \<Rightarrow> ledger io" where
  "mirror_new_channels w conn cfg message seen =
     io_bind (sweep_prelude w conn cfg seen) (\<lambda>p.
       case p of (bridge_bot_id, new_channels, community, rooms_in_community) \<Rightarrow>
         io_bind (mirror_channels_loop w cfg message bridge_bot_id community rooms_in_community
                    new_channels) (\<lambda>_.
         io_return new_channels))"

text \<open>\<open>seen_channels.update(new_channels)\<close>\<close>

definition dict_update :: "ledger \<Rightarrow> ledger \<Rightarrow> ledger" where
  "dict_update d new = foldl (\<lambda>d kv. AList.update (fst kv) (snd kv) d) d new"

text \<open>
  The crontab trigger passes no message, and the handler builds one addressed to
  \<open>config.get("room", conn.default_room)\<close>.
\<close>

definition sweep_message :: "connector \<Rightarrow> config \<Rightarrow> message option \<Rightarrow> message" where
  "sweep_message conn cfg message =
     (case message of
        None \<Rightarrow> \<lparr>m_sender = [],
                  m_target = (case config_room cfg of None \<Rightarrow> default_room conn | Some r \<Rightarrow> r),
                  m_flag = []\<rparr>
      | Some m \<Rightarrow> m)"

text \<open>\<open>seen_channels if seen_channels else {}\<close>\<close>

definition ledger_of :: "memory \<Rightarrow> ledger" where
  "ledger_of mem = (case seen_channels mem of None \<Rightarrow> [] | Some s \<Rightarrow> s)"

text \<open>
  \<open>mirror_slack_channels\<close>. The memory is read once, for \<open>seen_channels\<close>, and
  written once, after the loop.
\<close>

definition mirror_slack_channels ::
  "world \<Rightarrow> connector \<Rightarrow> config \<Rightarrow> message option \<Rightarrow> memory \<Rightarrow> hist
     \<Rightarrow> ((exn + unit) \<times> hist) \<times> memory" where
  "mirror_slack_channels w conn cfg message mem t =
     (let message = sweep_message conn cfg message;
          seen = ledger_of mem
      in case mirror_new_channels w conn cfg message seen t of
           (Inl e, t1) \<Rightarrow> ((Inl e, t1), mem)
         | (Inr new_channels, t1) \<Rightarrow>
             if new_channels \<noteq> [] then
               (let seen = dict_update seen new_channels;
                    mem = mem\<lparr>seen_channels := Some seen,
                              put_log := put_log mem @ [''seen_channels'']\<rparr>
                in (respond w message ''Finished adding all rooms.'' None t1, mem))
             else ((Inr (), t1), mem))"


definition example_connector :: connector where
  "example_connector =
     \<lparr>mxid = ''@picard:example.org'', default_room = ''main'', has_create_group = False\<rparr>"

text \<open>The appservice invite is refused.\<close>

definition invite_fails_world :: world where
  "invite_fails_world = (\<lambda>t c. case c of
       SlackChannelsList \<Rightarrow> Inr (RChannels example_channels)
     | SlackGetUserId n \<Rightarrow> Inr (RStr ''B1'')
     | SlackConversationsMembers ch \<Rightarrow> Inr (RStrs [''B1''])
     | GetRoomId a \<Rightarrow> Inr (RStr ''!r1:example.org'')
     | InviteUser r u \<Rightarrow> Inl (MatrixRequestError 403 ''forbidden'')
     | _ \<Rightarrow> Inr RNone)"

text \<open>Every call succeeds.\<close>

definition friendly_world :: world where
  "friendly_world = (\<lambda>t c. case c of
       SlackChannelsList \<Rightarrow> Inr (RChannels example_channels)
     | SlackGetUserId n \<Rightarrow> Inr (RStr ''B1'')
     | SlackConversationsMembers ch \<Rightarrow> Inr (RStrs [''B1''])
     | GetRoomId a \<Rightarrow> Inr (RStr ''!r1:example.org'')
     | GetPowerLevels r \<Rightarrow> Inr (RDict [(''users'', JObj [])])
     | _ \<Rightarrow> Inr RNone)"


definition avatar_config :: config where
  "avatar_config = example_config\<lparr>room_avatar_url := Some ''mxc://x/a''\<rparr>"

text \<open>
  The memory after an admin has sent \<open>!skip avatar\<close> in the room
  \<open>!r1:example.org\<close>.
\<close>

definition skip_avatar_memory :: memory where
  "skip_avatar_memory =
     snd (room_skip_command quiet_world admin_config
            \<lparr>m_sender = ''@admin:x'', m_target = ''!r1:example.org'', m_flag = ''avatar''\<rparr>
            True empty_memory [])"

text \<open>The message the crontab trigger builds for the example connector.\<close>

definition cron_message :: message where
  "cron_message = \<lparr>m_sender = [], m_target = ''main'', m_flag = []\<rparr>"

section \<open>Which failures the sweep catches\<close>

text \<open>
  The failures for which the sweep has an \<open>except\<close> clause, by the call that
  fails and the exception it raises: \<open>slacker.Error\<close> from the bot invite (lines
  33-36); a \<open>MatrixRequestError\<close> with code 404 from an alias lookup (lines 88-94),
  from the related-groups read (lines 271-278) and from the group profile (lines
  165-172); a \<open>MatrixRequestError\<close> from \<open>create_room\<close> (lines 118-122) and from
  \<open>invite_user\<close> (lines 143-148); any exception from the join-rule and
  history-visibility state events (lines 427-436) and from \<open>add_room_to_group\<close>
  (lines 465-468). The classification is by call and exception only, so it also counts
  a 404 from the alias lookup of line 122, which stands in no \<open>try\<close>: nothing is
  claimed of the failures counted here beyond what is proved of each of them.
\<close>

fun is_request_error :: "exn \<Rightarrow> bool" where
  "is_request_error (MatrixRequestError code content) = True"
| "is_request_error _ = False"

fun is_not_found :: "exn \<Rightarrow> bool" where
  "is_not_found (MatrixRequestError code content) = (code = 404)"
| "is_not_found _ = False"

fun caught :: "call \<Rightarrow> exn \<Rightarrow> bool" where
  "caught (SlackChannelsInvite channel_id bot_id) e = (e = SlackerError)"
| "caught (GetRoomId room_alias) e = is_not_found e"
| "caught (GetStateEvent room_id ty) e = is_not_found e"
| "caught (GetGroupProfile community) e = is_not_found e"
| "caught (CreateRoom alias) e = is_request_error e"
| "caught (InviteUser room_id user) e = is_request_error e"
| "caught (SendStateEvent room_id ty content) e =
     (ty = ''m.room.join_rules'' \<or> ty = ''m.room.history_visibility'')"
| "caught (AddRoomToGroup community room_id) e = True"
| "caught c e = False"

text \<open>
  A coroutine stops at a failure that is not caught: it only adds calls to the history,
  and when a call it issued failed with an exception outside \<open>caught\<close>, that call is
  the last one it issued and the coroutine raises that exception.
\<close>

definition fail_stop :: "world \<Rightarrow> 'a io \<Rightarrow> bool" where
  "fail_stop w m \<longleftrightarrow>
     (\<forall>t. \<exists>s. snd (m t) = t @ s
        \<and> (\<forall>s1 c s2 e. s = s1 @ c # s2 \<and> w (t @ s1) c = Inl e \<and> \<not> caught c e
              \<longrightarrow> s2 = [] \<and> fst (m t) = Inl e))"



text \<open>
  The calls of lines 415-423 for one room, when none of them fails: the name, the topic
  if there is one, the avatar if one is configured as an \<open>mxc\<close> URI.
\<close>

definition name_topic_avatar_calls :: "config \<Rightarrow> string \<Rightarrow> string \<Rightarrow> string \<Rightarrow> call list" where
  "name_topic_avatar_calls cfg room_id channel_name topic =
     [SetRoomName room_id
        ((case room_name_prefix cfg of None \<Rightarrow> room_alias_prefix cfg | Some p \<Rightarrow> p)
           @ channel_name)]
     @ (if topic \<noteq> [] then [SetRoomTopic room_id topic] else [])
     @ (case room_avatar_url cfg of
          None \<Rightarrow> []
        | Some avatar_url \<Rightarrow>
            if avatar_url \<noteq> [] \<and> startswith avatar_url ''mxc''
            then [SendStateEvent room_id ''m.room.avatar'' (JObj [(''url'', JStr avatar_url)])]
            else [])"


text \<open>A workspace that has no user of the bridge bot's name.\<close>

definition unknown_bot_world :: world where
  "unknown_bot_world = (\<lambda>t c. case c of
       SlackChannelsList \<Rightarrow> Inr (RChannels example_channels)
     | SlackGetUserId n \<Rightarrow> Inr RNone
     | SlackConversationsMembers ch \<Rightarrow> Inr (RStrs [''U1''])
     | GetRoomId a \<Rightarrow> Inr (RStr ''!r1:example.org'')
     | GetPowerLevels r \<Rightarrow> Inr (RDict [(''users'', JObj [])])
     | _ \<Rightarrow> Inr RNone)"

section \<open>Discovery: what \<open>get_new_channels\<close> returns\<close>

lemma io_bind_simps:
  "m t = (Inr v, t') \<Longrightarrow> io_bind m f t = f v t'"
  "m t = (Inl e, t') \<Longrightarrow> io_bind m f t = (Inl e, t')"
  by (simp_all add: io_bind_def)

lemma map_of_foldl_update:
  "map_of (foldl (\<lambda>d c. AList.update (f c) (g c) d) d cs) =
     map_of d ++ map_of (rev (map (\<lambda>c. (f c, g c)) cs))"
  by (induction cs arbitrary: d) (simp_all add: update_conv' map_add_def fun_eq_iff split: option.splits)

lemma channel_mapping_lookup:
  assumes "c \<in> set channels"
  shows "\<exists>n. map_of (foldl (\<lambda>d c. AList.update (c_id c) (c_name c) d) [] channels) (c_id c) = Some n"
proof -
  have "c_id c \<in> fst ` set (rev (map (\<lambda>c. (c_id c, c_name c)) channels))"
    using assms by force
  then have "c_id c \<in> dom (map_of (rev (map (\<lambda>c. (c_id c, c_name c)) channels)))"
    by (simp only: dom_map_of_conv_image_fst)
  then obtain n where "map_of (rev (map (\<lambda>c. (c_id c, c_name c)) channels)) (c_id c) = Some n"
    by (auto simp only: dom_def)
  then show ?thesis by (simp add: map_of_foldl_update)
qed

lemma channel_mapping_lookup_distinct:
  assumes "c \<in> set channels" and "distinct (map c_id channels)"
  shows "map_of (foldl (\<lambda>d c. AList.update (c_id c) (c_name c) d) [] channels) (c_id c) = Some (c_name c)"
proof -
  have d: "distinct (map fst (rev (map (\<lambda>c. (c_id c, c_name c)) channels)))"
    using assms(2) by (simp add: rev_map[symmetric] comp_def)
  have "(c_id c, c_name c) \<in> set (rev (map (\<lambda>c. (c_id c, c_name c)) channels))"
    using assms(1) by auto
  with d have "map_of (rev (map (\<lambda>c. (c_id c, c_name c)) channels)) (c_id c) = Some (c_name c)"
    by (rule map_of_is_SomeI)
  then show ?thesis by (simp add: map_of_foldl_update)
qed

lemma get_channel_mapping_stable:
  assumes "\<forall>t. w t SlackChannelsList = Inr (RChannels channels)"
  shows "get_channel_mapping w t =
    (Inr (foldl (\<lambda>d c. AList.update (c_id c) (c_name c) d) [] channels), t @ [SlackChannelsList])"
  using assms by (simp add: get_channel_mapping_def io_bind_def api_def io_return_def)

lemma discovered_simps:
  "discovered cfg seen mapping [] new = new"
  "discovered cfg seen mapping (c # cs) new =
     discovered cfg seen mapping cs
       (if is_new seen c then AList.update (c_id c) (entry_of cfg mapping c) new else new)"
  by (simp_all add: discovered_def)

lemma loop_stable:
  assumes st: "\<forall>t. w t SlackChannelsList = Inr (RChannels channels)"
    and sub: "set cs \<subseteq> set channels"
  shows "\<exists>t'. get_new_channels_loop w cfg seen cs new t =
     (Inr (discovered cfg seen (foldl (\<lambda>d c. AList.update (c_id c) (c_name c) d) [] channels) cs new), t')"
  using sub
proof (induction cs arbitrary: new t)
  case Nil
  then show ?case by (simp add: io_return_def discovered_simps)
next
  case (Cons c cs)
  then have sub': "set cs \<subseteq> set channels" and cin: "c \<in> set channels" by auto
  note gm = get_channel_mapping_stable[where w=w and channels=channels, OF st]
  show ?case
  proof (cases "is_new seen c")
    case False
    then have "get_new_channels_loop w cfg seen (c # cs) new t = get_new_channels_loop w cfg seen cs new t"
      by (auto simp: is_new_def)
    then show ?thesis using Cons.IH[OF sub', of new t] False by (simp add: discovered_simps)
  next
    case True
    obtain n where n: "map_of (foldl (\<lambda>d c. AList.update (c_id c) (c_name c) d) [] channels) (c_id c) = Some n"
      using channel_mapping_lookup[OF cin] by blast
    have "get_new_channels_loop w cfg seen (c # cs) new t
        = get_new_channels_loop w cfg seen cs
            (AList.update (c_id c) (entry_of cfg (foldl (\<lambda>d c. AList.update (c_id c) (c_name c) d) [] channels) c) new)
            (t @ [SlackChannelsList])"
      using True n by (simp add: is_new_def io_bind_simps(1)[OF gm] entry_of_def)
    then show ?thesis
      using Cons.IH[OF sub', of _ "t @ [SlackChannelsList]"] True by (simp add: discovered_simps)
  qed
qed

lemma discovered_keys:
  "fst ` set (discovered cfg seen mapping cs new) =
     fst ` set new \<union> {c_id c |c. c \<in> set cs \<and> is_new seen c}"
proof (induction cs arbitrary: new)
  case Nil
  then show ?case by (simp add: discovered_simps)
next
  case (Cons c cs)
  show ?case
    unfolding discovered_simps Cons.IH by (auto simp: dom_update)
qed

lemma discovered_other:
  "k \<notin> {c_id c |c. c \<in> set cs \<and> is_new seen c} \<Longrightarrow>
     map_of (discovered cfg seen mapping cs new) k = map_of new k"
proof (induction cs arbitrary: new)
  case Nil
  then show ?case by (simp add: discovered_simps)
next
  case (Cons c cs)
  from Cons.prems have k: "k \<notin> {c_id c |c. c \<in> set cs \<and> is_new seen c}"
    and kc: "is_new seen c \<longrightarrow> k \<noteq> c_id c" by auto
  show ?case
    unfolding discovered_simps using Cons.IH[OF k] kc by (simp add: update_conv')
qed

lemma discovered_value:
  assumes "distinct (map c_id cs)" and "c \<in> set cs" and "is_new seen c"
  shows "map_of (discovered cfg seen mapping cs new) (c_id c) = Some (entry_of cfg mapping c)"
  using assms
proof (induction cs arbitrary: new)
  case Nil
  then show ?case by simp
next
  case (Cons a cs)
  show ?case
  proof (cases "c = a")
    case True
    with Cons.prems have "c_id c \<notin> {c_id x |x. x \<in> set cs \<and> is_new seen x}" by auto
    then show ?thesis
      unfolding discovered_simps using True Cons.prems(3)
      by (simp add: discovered_other update_conv')
  next
    case False
    with Cons.prems have "distinct (map c_id cs)" "c \<in> set cs" by auto
    then show ?thesis
      unfolding discovered_simps using Cons.IH Cons.prems(3) by blast
  qed
qed

lemma discovered_empty_iff:
  "discovered cfg seen mapping cs [] = [] \<longleftrightarrow> (\<forall>c \<in> set cs. \<not> is_new seen c)"
proof -
  have "discovered cfg seen mapping cs [] = [] \<longleftrightarrow> fst ` set (discovered cfg seen mapping cs []) = {}"
    by simp
  also have "\<dots> \<longleftrightarrow> (\<forall>c \<in> set cs. \<not> is_new seen c)"
    unfolding discovered_keys by auto
  finally show ?thesis .
qed

lemma get_new_channels_stable:
  assumes st: "\<forall>t. w t SlackChannelsList = Inr (RChannels channels)"
  shows "\<exists>t'. get_new_channels w cfg seen t =
     (Inr (discovered cfg seen (foldl (\<lambda>d c. AList.update (c_id c) (c_name c) d) [] channels) channels []), t')"
proof -
  have "get_new_channels w cfg seen t = get_new_channels_loop w cfg seen channels [] (t @ [SlackChannelsList])"
    using st by (simp add: get_new_channels_def io_bind_def api_def io_return_def)
  then show ?thesis
    using loop_stable[where w=w and channels=channels and cs=channels, OF st] by simp
qed

text \<open>
  C9. When the workspace lists the same channels throughout the call,
  \<open>get_new_channels\<close> returns a dict whose keys are exactly the ids of the channels
  that are not archived and not keys of the Ledger. With unique channel ids each such
  channel is mapped to (name, alias, topic), the alias being
  \<open>'#' + prefix + name + ':' + server\<close>. The dict is empty when nothing is new.
\<close>

theorem get_new_channels_discovery:
  assumes "\<forall>t. w t SlackChannelsList = Inr (RChannels channels)"
  shows "\<exists>new t'. get_new_channels w cfg seen t = (Inr new, t')
     \<and> dom (map_of new) =
         {c_id c |c. c \<in> set channels \<and> \<not> is_archived c \<and> c_id c \<notin> set (map fst seen)}
     \<and> (distinct (map c_id channels) \<longrightarrow>
          (\<forall>c \<in> set channels. \<not> is_archived c \<and> c_id c \<notin> set (map fst seen) \<longrightarrow>
             map_of new (c_id c) =
               Some (c_name c,
                     ''#'' @ room_alias_prefix cfg @ c_name c @ '':'' @ server_name cfg,
                     topic_value c)))
     \<and> ((\<forall>c \<in> set channels. is_archived c \<or> c_id c \<in> set (map fst seen)) \<longrightarrow> new = [])"
proof -
  let ?m = "foldl (\<lambda>d c. AList.update (c_id c) (c_name c) d) [] channels"
  let ?new = "discovered cfg seen ?m channels []"
  obtain t' where r: "get_new_channels w cfg seen t = (Inr ?new, t')"
    using get_new_channels_stable[where w=w and channels=channels, OF assms] by blast
  have k: "dom (map_of ?new) =
      {c_id c |c. c \<in> set channels \<and> \<not> is_archived c \<and> c_id c \<notin> set (map fst seen)}"
    by (simp only: dom_map_of_conv_image_fst discovered_keys) (auto simp: is_new_def)
  have v: "map_of ?new (c_id c) =
      Some (c_name c, ''#'' @ room_alias_prefix cfg @ c_name c @ '':'' @ server_name cfg, topic_value c)"
    if "distinct (map c_id channels)" "c \<in> set channels"
       "\<not> is_archived c \<and> c_id c \<notin> set (map fst seen)" for c
  proof -
    have n: "is_new seen c" using that(3) by (simp add: is_new_def)
    have "map_of ?new (c_id c) = Some (entry_of cfg ?m c)"
      using that(1) that(2) n by (rule discovered_value)
    then show ?thesis
      by (simp add: entry_of_def Let_def channel_mapping_lookup_distinct[OF that(2) that(1)])
  qed
  have e: "?new = []" if "\<forall>c \<in> set channels. is_archived c \<or> c_id c \<in> set (map fst seen)"
    using that by (simp only: discovered_empty_iff) (auto simp: is_new_def)
  show ?thesis
    using r k v e by blast
qed

theorem get_new_channels_discovery_witness:
  "(\<forall>t. listing_world t SlackChannelsList = Inr (RChannels example_channels))
   \<and> distinct (map c_id example_channels)
   \<and> (\<exists>new t'. get_new_channels listing_world example_config [] [] = (Inr new, t')
        \<and> dom (map_of new) = {''C1''}
        \<and> map_of new ''C1'' = Some (''general'', ''#br-general:example.org'', ''talk''))"
proof -
  have h: "\<forall>t. listing_world t SlackChannelsList = Inr (RChannels example_channels)"
    by (simp add: listing_world_def)
  have d: "distinct (map c_id example_channels)"
    by (simp add: example_channels_def)
  obtain new t' where r: "get_new_channels listing_world example_config [] [] = (Inr new, t')"
    and k: "dom (map_of new) =
         {c_id c |c. c \<in> set example_channels \<and> \<not> is_archived c \<and> c_id c \<notin> set (map fst ([] :: ledger))}"
    and v: "distinct (map c_id example_channels) \<longrightarrow>
          (\<forall>c \<in> set example_channels. \<not> is_archived c \<and> c_id c \<notin> set (map fst ([] :: ledger)) \<longrightarrow>
             map_of new (c_id c) =
               Some (c_name c,
                     ''#'' @ room_alias_prefix example_config @ c_name c @ '':'' @ server_name example_config,
                     topic_value c))"
    using get_new_channels_discovery[where w=listing_world and channels=example_channels
        and cfg=example_config and seen="[]" and t="[]", OF h] by blast
  have "{c_id c |c. c \<in> set example_channels \<and> \<not> is_archived c \<and> c_id c \<notin> set (map fst ([] :: ledger))}
      = set (map c_id (filter (\<lambda>c. \<not> is_archived c) example_channels))"
    by auto
  also have "\<dots> = {''C1''}"
    by (simp add: example_channels_def)
  finally have k': "dom (map_of new) = {''C1''}"
    using k by simp
  have v': "map_of new ''C1'' = Some (''general'', ''#br-general:example.org'', ''talk'')"
    using v d by (simp add: example_channels_def example_config_def)
  show ?thesis using h d r k' v' by blast
qed

section \<open>Power levels: what the merges leave alone\<close>

lemma user_is_room_admin_other:
  assumes "user_is_room_admin pl r m = Inr pl'" and "k \<noteq> ''users''"
  shows "map_of pl' k = map_of pl k"
  using assms
  by (auto simp: user_is_room_admin_def Let_def update_conv' split: option.splits json.splits if_splits)

lemma room_notifications_pl0_other:
  assumes "room_notifications_pl0 pl r = Inr pl'" and "k \<noteq> ''notifications''"
  shows "map_of pl' k = map_of pl k"
  using assms
  by (auto simp: room_notifications_pl0_def update_conv' split: option.splits json.splits)

lemma room_notifications_pl0_entries:
  assumes "room_notifications_pl0 pl r = Inr pl'" and "map_of pl ''notifications'' = Some (JObj ns)"
  shows "\<exists>ns'. map_of pl' ''notifications'' = Some (JObj ns')
           \<and> map_of ns' ''room'' = Some (JInt 0)
           \<and> (\<forall>e. e \<noteq> ''room'' \<longrightarrow> map_of ns' e = map_of ns e)"
  using assms
  by (auto simp: room_notifications_pl0_def update_conv' split: option.splits json.splits)

text \<open>
  C6. The admin grant leaves every key of the power-level document other than
  \<open>users\<close> unchanged; the notification floor leaves every key other than
  \<open>notifications\<close> unchanged and, inside \<open>notifications\<close>, every entry other
  than \<open>room\<close>; applying the grant and then the floor leaves every key other than
  these two unchanged and keeps the other notification entries.
\<close>

theorem power_level_merge_frame:
  "(user_is_room_admin pl r m = Inr pl1 \<longrightarrow>
      (\<forall>k. k \<noteq> ''users'' \<longrightarrow> map_of pl1 k = map_of pl k))
   \<and> (room_notifications_pl0 pl r = Inr pl2 \<longrightarrow>
        (\<forall>k. k \<noteq> ''notifications'' \<longrightarrow> map_of pl2 k = map_of pl k)
        \<and> (\<forall>ns. map_of pl ''notifications'' = Some (JObj ns) \<longrightarrow>
             (\<exists>ns'. map_of pl2 ''notifications'' = Some (JObj ns')
                \<and> (\<forall>e. e \<noteq> ''room'' \<longrightarrow> map_of ns' e = map_of ns e))))
   \<and> (user_is_room_admin pl r m = Inr pl1 \<and> room_notifications_pl0 pl1 r = Inr pl3 \<longrightarrow>
        (\<forall>k. k \<noteq> ''users'' \<and> k \<noteq> ''notifications'' \<longrightarrow> map_of pl3 k = map_of pl k)
        \<and> (\<forall>ns. map_of pl ''notifications'' = Some (JObj ns) \<longrightarrow>
             (\<exists>ns'. map_of pl3 ''notifications'' = Some (JObj ns')
                \<and> (\<forall>e. e \<noteq> ''room'' \<longrightarrow> map_of ns' e = map_of ns e))))"
proof (intro conjI impI allI)
  fix k assume "user_is_room_admin pl r m = Inr pl1" "k \<noteq> ''users''"
  then show "map_of pl1 k = map_of pl k" by (rule user_is_room_admin_other)
next
  fix k assume "room_notifications_pl0 pl r = Inr pl2" "k \<noteq> ''notifications''"
  then show "map_of pl2 k = map_of pl k" by (rule room_notifications_pl0_other)
next
  fix ns assume "room_notifications_pl0 pl r = Inr pl2" "map_of pl ''notifications'' = Some (JObj ns)"
  then show "\<exists>ns'. map_of pl2 ''notifications'' = Some (JObj ns')
                \<and> (\<forall>e. e \<noteq> ''room'' \<longrightarrow> map_of ns' e = map_of ns e)"
    using room_notifications_pl0_entries by blast
next
  fix k assume a: "user_is_room_admin pl r m = Inr pl1 \<and> room_notifications_pl0 pl1 r = Inr pl3"
    and k: "k \<noteq> ''users'' \<and> k \<noteq> ''notifications''"
  have "map_of pl3 k = map_of pl1 k" using a k room_notifications_pl0_other by blast
  also have "\<dots> = map_of pl k" using a k user_is_room_admin_other by blast
  finally show "map_of pl3 k = map_of pl k" .
next
  fix ns assume a: "user_is_room_admin pl r m = Inr pl1 \<and> room_notifications_pl0 pl1 r = Inr pl3"
    and n: "map_of pl ''notifications'' = Some (JObj ns)"
  have "map_of pl1 ''notifications'' = map_of pl ''notifications''"
    using a user_is_room_admin_other[of pl r m pl1 "''notifications''"] by simp
  then have "map_of pl1 ''notifications'' = Some (JObj ns)" using n by simp
  then show "\<exists>ns'. map_of pl3 ''notifications'' = Some (JObj ns')
                \<and> (\<forall>e. e \<noteq> ''room'' \<longrightarrow> map_of ns' e = map_of ns e)"
    using a room_notifications_pl0_entries by blast
qed

theorem power_level_merge_frame_witness:
  "\<exists>pl1 pl3. user_is_room_admin example_power_levels ''!r:x'' ''@b:x'' = Inr pl1
     \<and> room_notifications_pl0 pl1 ''!r:x'' = Inr pl3
     \<and> map_of pl3 ''ban'' = Some (JInt 50)
     \<and> (\<exists>ns'. map_of pl3 ''notifications'' = Some (JObj ns')
           \<and> map_of ns' ''other'' = Some (JInt 10))"
proof -
  let ?p1 = "[(''users'', JObj [(''@a:x'', JInt 50), (''@b:x'', JInt 100)]),
      (''ban'', JInt 50),
      (''notifications'', JObj [(''room'', JInt 50), (''other'', JInt 10)])]"
  let ?p3 = "[(''users'', JObj [(''@a:x'', JInt 50), (''@b:x'', JInt 100)]),
      (''ban'', JInt 50),
      (''notifications'', JObj [(''room'', JInt 0), (''other'', JInt 10)])]"
  have a: "user_is_room_admin example_power_levels ''!r:x'' ''@b:x'' = Inr ?p1"
    by (simp add: user_is_room_admin_def example_power_levels_def)
  have b: "room_notifications_pl0 ?p1 ''!r:x'' = Inr ?p3"
    by (simp add: room_notifications_pl0_def)
  have n: "map_of example_power_levels ''notifications''
      = Some (JObj [(''room'', JInt 50), (''other'', JInt 10)])"
    by (simp add: example_power_levels_def)
  note f = power_level_merge_frame[of example_power_levels "''!r:x''" "''@b:x''" ?p1 ?p3 ?p3,
      THEN conjunct2, THEN conjunct2, THEN mp, OF conjI[OF a b]]
  have "map_of ?p3 ''ban'' = map_of example_power_levels ''ban''"
    by (rule f[THEN conjunct1, THEN spec, THEN mp]) simp
  then have k: "map_of ?p3 ''ban'' = Some (JInt 50)"
    by (simp add: example_power_levels_def)
  from f[THEN conjunct2, THEN spec, THEN mp, OF n]
  obtain ns' where ns: "map_of ?p3 ''notifications'' = Some (JObj ns')"
    and fr: "\<forall>e. e \<noteq> ''room'' \<longrightarrow> map_of ns' e = map_of [(''room'', JInt 50), (''other'', JInt 10)] e"
    by (elim exE conjE)
  have "map_of ns' ''other'' = map_of [(''room'', JInt 50), (''other'', JInt 10)] ''other''"
    by (rule fr[THEN spec, THEN mp]) simp
  then have o: "map_of ns' ''other'' = Some (JInt 10)" by simp
  show ?thesis
    apply (rule exI[where x = ?p1])
    apply (rule exI[where x = ?p3])
    apply (intro conjI)
       apply (rule a)
      apply (rule b)
     apply (rule k)
    apply (rule exI[where x = ns'])
    apply (rule conjI[OF ns o])
    done
qed

text \<open>
  C7, as the claim states it, fails: a user whose level is 150 is set to 100.
\<close>

theorem admin_grant_counterexample:
  "user_is_room_admin [(''users'', JObj [(''@a:x'', JInt 150)])] ''!r:x'' ''@a:x''
     = Inr [(''users'', JObj [(''@a:x'', JInt 100)])]"
  by (simp add: user_is_room_admin_def)

text \<open>
  C7, amended. After the admin grant the user's level is exactly 100 and no other
  user's level has changed; the document is left untouched when the level was already
  100. Any other level (absent, lower or higher than 100) is replaced by 100.
\<close>

theorem admin_grant_sets_100:
  assumes "user_is_room_admin pl r m = Inr pl'"
  shows "\<exists>us us'. map_of pl ''users'' = Some (JObj us) \<and> map_of pl' ''users'' = Some (JObj us')
           \<and> map_of us' m = Some (JInt 100)
           \<and> (\<forall>u. u \<noteq> m \<longrightarrow> map_of us' u = map_of us u)
           \<and> (map_of us m = Some (JInt 100) \<longrightarrow> pl' = pl)"
  using assms
  by (auto simp: user_is_room_admin_def Let_def update_conv' split: option.splits json.splits if_splits)

theorem admin_grant_sets_100_witness:
  "user_is_room_admin [(''users'', JObj [(''@a:x'', JInt 50), (''@b:x'', JInt 7)])] ''!r:x'' ''@a:x''
     = Inr [(''users'', JObj [(''@a:x'', JInt 100), (''@b:x'', JInt 7)])]
   \<and> (\<exists>us'. map_of [(''users'', JObj [(''@a:x'', JInt 100), (''@b:x'', JInt 7)])] ''users''
                = Some (JObj us')
          \<and> map_of us' ''@a:x'' = Some (JInt 100))"
proof -
  have e: "user_is_room_admin [(''users'', JObj [(''@a:x'', JInt 50), (''@b:x'', JInt 7)])] ''!r:x'' ''@a:x''
     = Inr [(''users'', JObj [(''@a:x'', JInt 100), (''@b:x'', JInt 7)])]"
    by (simp add: user_is_room_admin_def)
  show ?thesis using e admin_grant_sets_100[OF e] by blast
qed

section \<open>Self-membership\<close>

text \<open>
  C3. \<open>intent_self_in_room\<close> on an alias that resolves to an existing room the
  connector has not joined: the only call issued is the alias lookup. The joined-rooms
  list is never fetched and no join is issued, because the membership test is a
  coroutine object that was never awaited.
\<close>

theorem intent_self_in_room_existing_no_join:
  "intent_self_in_room unjoined_world ''#br-general:example.org'' [] =
    (Inr ''!r1:example.org'', [GetRoomId ''#br-general:example.org''])"
  by (simp add: intent_self_in_room_def room_id_if_exists_def startswith_def io_try_def
      io_bind_def api_def io_return_def truthy_coroutine_def unjoined_world_def)

section \<open>Related groups: the merge\<close>

lemma json_strs_map: "json_strs (map JStr xs) = Some xs"
  by (induction xs) simp_all

lemma get_related_groups_existing:
  assumes "w t (GetStateEvent roomid ''m.room.related_groups'') = Inr (RDict d)"
    and "map_of d ''groups'' = Some (JArr (map JStr existing))"
  shows "get_related_groups w roomid t =
           (Inr existing, t @ [GetStateEvent roomid ''m.room.related_groups''])"
  using assms
  by (simp add: get_related_groups_def io_try_def io_bind_def api_def io_return_def json_strs_map)

lemma get_related_groups_404:
  assumes "w t (GetStateEvent roomid ''m.room.related_groups'') = Inl (MatrixRequestError 404 content)"
  shows "get_related_groups w roomid t =
           (Inr [], t @ [GetStateEvent roomid ''m.room.related_groups''])"
  using assms
  by (simp add: get_related_groups_def io_try_def io_bind_def api_def io_return_def)

lemma update_related_groups_trace:
  assumes "get_related_groups w roomid t = (Inr existing, t1)"
  shows "snd (update_related_groups w roomid communities t) =
           t1 @ [SendStateEvent roomid ''m.room.related_groups''
                   (JObj [(''groups'', JArr (map JStr (list_of_set (existing @ communities))))])]"
  using assms
  by (simp add: update_related_groups_def set_related_groups_def io_bind_def api_def Let_def)

text \<open>
  C8. When the room's related-groups state holds the list \<open>existing\<close> (or the
  state is absent, error 404, and \<open>existing\<close> is empty),
  \<open>update_related_groups\<close> reads the state and writes back one state event whose
  group list has exactly the elements of \<open>existing\<close> and of the configured list,
  each once, so that no existing group is dropped. The set of elements written is the
  same when the two lists are exchanged and when either is reordered.
\<close>

theorem update_related_groups_union:
  "(w t (GetStateEvent roomid ''m.room.related_groups'') = Inr (RDict d)
      \<and> map_of d ''groups'' = Some (JArr (map JStr existing))
    \<or> w t (GetStateEvent roomid ''m.room.related_groups'') = Inl (MatrixRequestError 404 content)
      \<and> existing = [])
   \<longrightarrow> (\<exists>new_groups.
          snd (update_related_groups w roomid communities t) =
            t @ [GetStateEvent roomid ''m.room.related_groups'',
                 SendStateEvent roomid ''m.room.related_groups''
                   (JObj [(''groups'', JArr (map JStr new_groups))])]
        \<and> set new_groups = set existing \<union> set communities
        \<and> distinct new_groups
        \<and> set existing \<subseteq> set new_groups
        \<and> new_groups = list_of_set (existing @ communities)
        \<and> set (list_of_set (communities @ existing)) = set new_groups
        \<and> (\<forall>existing' communities'. set existing' = set existing \<and> set communities' = set communities
              \<longrightarrow> set (list_of_set (existing' @ communities')) = set new_groups))"
proof
  assume h: "w t (GetStateEvent roomid ''m.room.related_groups'') = Inr (RDict d)
      \<and> map_of d ''groups'' = Some (JArr (map JStr existing))
    \<or> w t (GetStateEvent roomid ''m.room.related_groups'') = Inl (MatrixRequestError 404 content)
      \<and> existing = []"
  have g: "get_related_groups w roomid t =
           (Inr existing, t @ [GetStateEvent roomid ''m.room.related_groups''])"
    using h get_related_groups_existing get_related_groups_404 by blast
  have tr: "snd (update_related_groups w roomid communities t) =
            t @ [GetStateEvent roomid ''m.room.related_groups'',
                 SendStateEvent roomid ''m.room.related_groups''
                   (JObj [(''groups'', JArr (map JStr (list_of_set (existing @ communities))))])]"
    using update_related_groups_trace[OF g] by simp
  have s: "set (list_of_set (existing @ communities)) = set existing \<union> set communities"
    by (simp add: list_of_set_def)
  have di: "distinct (list_of_set (existing @ communities))"
    by (simp add: list_of_set_def)
  have sw: "set (list_of_set (communities @ existing)) = set (list_of_set (existing @ communities))"
    by (auto simp: list_of_set_def)
  have pe: "\<forall>existing' communities'. set existing' = set existing \<and> set communities' = set communities
              \<longrightarrow> set (list_of_set (existing' @ communities')) = set (list_of_set (existing @ communities))"
    by (simp add: list_of_set_def)
  show "\<exists>new_groups.
          snd (update_related_groups w roomid communities t) =
            t @ [GetStateEvent roomid ''m.room.related_groups'',
                 SendStateEvent roomid ''m.room.related_groups''
                   (JObj [(''groups'', JArr (map JStr new_groups))])]
        \<and> set new_groups = set existing \<union> set communities
        \<and> distinct new_groups
        \<and> set existing \<subseteq> set new_groups
        \<and> new_groups = list_of_set (existing @ communities)
        \<and> set (list_of_set (communities @ existing)) = set new_groups
        \<and> (\<forall>existing' communities'. set existing' = set existing \<and> set communities' = set communities
              \<longrightarrow> set (list_of_set (existing' @ communities')) = set new_groups)"
    apply (rule exI[where x = "list_of_set (existing @ communities)"])
    apply (intro conjI)
          apply (rule tr)
         apply (rule s)
        apply (rule di)
       apply (simp only: s Un_upper1)
      apply (rule refl)
     apply (rule sw)
    apply (rule pe)
    done
qed

theorem update_related_groups_union_witness:
  "\<exists>new_groups.
      snd (update_related_groups groups_world ''!r:x'' [''+b:x'', ''+c:x''] []) =
        [GetStateEvent ''!r:x'' ''m.room.related_groups'',
         SendStateEvent ''!r:x'' ''m.room.related_groups''
           (JObj [(''groups'', JArr (map JStr new_groups))])]
      \<and> set new_groups = {''+a:x'', ''+b:x'', ''+c:x''}
      \<and> distinct new_groups"
proof -
  have h: "groups_world [] (GetStateEvent ''!r:x'' ''m.room.related_groups'')
             = Inr (RDict [(''groups'', JArr (map JStr [''+a:x'', ''+b:x'']))])
      \<and> map_of [(''groups'', JArr (map JStr [''+a:x'', ''+b:x'']))] ''groups''
             = Some (JArr (map JStr [''+a:x'', ''+b:x'']))"
    by (simp add: groups_world_def)
  from update_related_groups_union[where w=groups_world and t="[]" and roomid="''!r:x''"
      and d="[(''groups'', JArr (map JStr [''+a:x'', ''+b:x'']))]"
      and existing="[''+a:x'', ''+b:x'']" and communities="[''+b:x'', ''+c:x'']",
      THEN mp, OF disjI1, OF h]
  obtain new_groups where
    a: "snd (update_related_groups groups_world ''!r:x'' [''+b:x'', ''+c:x''] []) =
        [] @ [GetStateEvent ''!r:x'' ''m.room.related_groups'',
         SendStateEvent ''!r:x'' ''m.room.related_groups''
           (JObj [(''groups'', JArr (map JStr new_groups))])]"
    and b: "set new_groups = set [''+a:x'', ''+b:x''] \<union> set [''+b:x'', ''+c:x'']"
    and c: "distinct new_groups"
    by (elim exE conjE)
  from b have b': "set new_groups = {''+a:x'', ''+b:x'', ''+c:x''}" by auto
  show ?thesis
    apply (rule exI[where x = new_groups])
    using a b' c by simp
qed

section \<open>Auto-invite list\<close>

lemma on_auto_invite_enrolled:
  "m_sender message \<in> set (users_of mem) \<Longrightarrow> snd (on_auto_invite w message mem t) = mem"
  by (simp add: on_auto_invite_def users_of_def Let_def)

lemma on_disable_not_enrolled:
  "m_sender message \<notin> set (users_of mem) \<Longrightarrow> snd (on_disable_auto_invite w message mem t) = mem"
  by (simp add: on_disable_auto_invite_def users_of_def Let_def)

lemma on_auto_invite_distinct:
  "distinct (users_of mem) \<Longrightarrow> distinct (users_of (snd (on_auto_invite w message mem t)))"
  by (simp add: on_auto_invite_def users_of_def Let_def)

lemma on_disable_distinct:
  "distinct (users_of mem) \<Longrightarrow> distinct (users_of (snd (on_disable_auto_invite w message mem t)))"
  by (simp add: on_disable_auto_invite_def users_of_def Let_def)

lemma run_commands_distinct:
  "distinct (users_of mem) \<Longrightarrow> distinct (users_of (fst (run_commands w cs mem t)))"
proof (induction cs arbitrary: mem t)
  case Nil
  then show ?case by simp
next
  case (Cons c cs)
  show ?case
  proof (cases c)
    case (AutoInvite m)
    obtain r t' mem' where s: "on_auto_invite w m mem t = ((r, t'), mem')"
      by (metis prod.collapse)
    then have "distinct (users_of mem')"
      using on_auto_invite_distinct[OF Cons.prems, of w m t] by simp
    then show ?thesis using AutoInvite s Cons.IH by simp
  next
    case (DisableAutoInvite m)
    obtain r t' mem' where s: "on_disable_auto_invite w m mem t = ((r, t'), mem')"
      by (metis prod.collapse)
    then have "distinct (users_of mem')"
      using on_disable_distinct[OF Cons.prems, of w m t] by simp
    then show ?thesis using DisableAutoInvite s Cons.IH by simp
  qed
qed

text \<open>
  C10. When the stored auto-invite list has no duplicates: \<open>!autoinvite\<close> from a
  sender already on the list leaves the memory as it was (no put, the put log
  included), \<open>!autoinvite disable\<close> from a sender not on the list leaves the memory
  as it was, each handler leaves a list without duplicates, a disabled sender is no
  longer on the list, and so does every run of the two commands, in particular every
  run from the empty memory.
\<close>

theorem autoinvite_duplicate_free:
  assumes "distinct (users_of mem)"
  shows "(m_sender message \<in> set (users_of mem) \<longrightarrow>
            snd (on_auto_invite w message mem t) = mem)
       \<and> (m_sender message \<notin> set (users_of mem) \<longrightarrow>
            snd (on_disable_auto_invite w message mem t) = mem)
       \<and> distinct (users_of (snd (on_auto_invite w message mem t)))
       \<and> distinct (users_of (snd (on_disable_auto_invite w message mem t)))
       \<and> m_sender message \<notin> set (users_of (snd (on_disable_auto_invite w message mem t)))
       \<and> distinct (users_of (fst (run_commands w cs mem t)))
       \<and> distinct (users_of (fst (run_commands w cs empty_memory t)))"
proof -
  have e: "distinct (users_of empty_memory)" by (simp add: users_of_def empty_memory_def)
  have r: "m_sender message \<notin> set (users_of (snd (on_disable_auto_invite w message mem t)))"
    using assms by (simp add: on_disable_auto_invite_def users_of_def Let_def)
  show ?thesis
    using assms e r on_auto_invite_enrolled on_disable_not_enrolled on_auto_invite_distinct
      on_disable_distinct run_commands_distinct by blast
qed

theorem autoinvite_duplicate_free_witness:
  "distinct (users_of enrolled_memory)
   \<and> snd (on_auto_invite quiet_world \<lparr>m_sender = ''@a:x'', m_target = ''!r:x'', m_flag = []\<rparr>
            enrolled_memory []) = enrolled_memory
   \<and> distinct (users_of (fst (run_commands quiet_world
         [AutoInvite \<lparr>m_sender = ''@c:x'', m_target = ''!r:x'', m_flag = []\<rparr>,
          AutoInvite \<lparr>m_sender = ''@c:x'', m_target = ''!r:x'', m_flag = []\<rparr>,
          DisableAutoInvite \<lparr>m_sender = ''@a:x'', m_target = ''!r:x'', m_flag = []\<rparr>]
         enrolled_memory [])))"
proof -
  let ?m = "\<lparr>m_sender = ''@a:x'', m_target = ''!r:x'', m_flag = []\<rparr>"
  let ?cs = "[AutoInvite \<lparr>m_sender = ''@c:x'', m_target = ''!r:x'', m_flag = []\<rparr>,
          AutoInvite \<lparr>m_sender = ''@c:x'', m_target = ''!r:x'', m_flag = []\<rparr>,
          DisableAutoInvite \<lparr>m_sender = ''@a:x'', m_target = ''!r:x'', m_flag = []\<rparr>]"
  have h: "distinct (users_of enrolled_memory)"
    by (simp add: users_of_def enrolled_memory_def)
  have s: "m_sender ?m \<in> set (users_of enrolled_memory)"
    by (simp add: users_of_def enrolled_memory_def)
  note T = autoinvite_duplicate_free[where mem=enrolled_memory and message="?m"
      and w=quiet_world and t="[]" and cs="?cs", OF h]
  have a: "snd (on_auto_invite quiet_world ?m enrolled_memory []) = enrolled_memory"
    by (rule T[THEN conjunct1, THEN mp, OF s])
  have b: "distinct (users_of (fst (run_commands quiet_world ?cs enrolled_memory [])))"
    by (rule T[THEN conjunct2, THEN conjunct2, THEN conjunct2, THEN conjunct2, THEN conjunct2,
          THEN conjunct1])
  show ?thesis
    by (intro conjI) (rule h a b)+
qed

section \<open>The skip command\<close>

text \<open>
  C5. \<open>!skip foo\<close> sent by an admin in room \<open>!r:x\<close>, with nothing stored: the
  handler reports the error, then goes on, stores \<open>skip_room_foo = True\<close> in the
  room's options with one put, and reports that the settings were updated.
\<close>

theorem room_skip_command_invalid_flag_writes:
  "fst (room_skip_command quiet_world admin_config
      \<lparr>m_sender = ''@admin:x'', m_target = ''!r:x'', m_flag = ''foo''\<rparr> True empty_memory [])
    = (Inr (),
       [Respond ''!r:x'' (''The skip argument must be one of ('' @ repr_str ''name'' @ '', ''
            @ repr_str ''description'' @ '', '' @ repr_str ''avatar'' @ ''), not foo'') None,
        Respond ''!r:x'' ''Your room settings have been updated.'' None])
   \<and> picard_options (snd (room_skip_command quiet_world admin_config
      \<lparr>m_sender = ''@admin:x'', m_target = ''!r:x'', m_flag = ''foo''\<rparr> True empty_memory [])) ''!r:x''
      = Some [(''skip_room_foo'', True)]
   \<and> put_log (snd (room_skip_command quiet_world admin_config
      \<lparr>m_sender = ''@admin:x'', m_target = ''!r:x'', m_flag = ''foo''\<rparr> True empty_memory []))
      = [''picard.options'']"
  by (simp add: room_skip_command_def quiet_world_def admin_config_def example_config_def
     empty_memory_def respond_def io_bind_def api_def io_return_def Let_def repr_flags_def repr_str_def)

section \<open>Where the sweep's coroutines stop\<close>

text \<open>
  Every coroutine of the sweep only adds calls to the history, and stops at the first
  failure of a call that is not among the caught ones, raising that failure.
\<close>

lemma fail_stopI:
  assumes "\<And>t. \<exists>s. snd (m t) = t @ s
        \<and> (\<forall>s1 c s2 e. s = s1 @ c # s2 \<and> w (t @ s1) c = Inl e \<and> \<not> caught c e
              \<longrightarrow> s2 = [] \<and> fst (m t) = Inl e)"
  shows "fail_stop w m"
  using assms unfolding fail_stop_def by blast

lemma fail_stopD:
  assumes "fail_stop w m"
  shows "\<exists>s. snd (m t) = t @ s
        \<and> (\<forall>s1 c s2 e. s = s1 @ c # s2 \<longrightarrow> w (t @ s1) c = Inl e \<longrightarrow> \<not> caught c e
              \<longrightarrow> s2 = [] \<and> fst (m t) = Inl e)"
  using assms unfolding fail_stop_def by blast

lemma fail_stop_pure: "fail_stop w (\<lambda>t. (r, t))"
  by (rule fail_stopI) simp

lemma fail_stop_return: "fail_stop w (io_return v)"
  unfolding io_return_def by (rule fail_stop_pure)

lemma fail_stop_raise: "fail_stop w (io_raise e)"
  unfolding io_raise_def by (rule fail_stop_pure)

lemma fail_stop_of_result: "fail_stop w (io_of_result r)"
  unfolding io_of_result_def by (rule fail_stop_pure)

lemma single_decomp: "[a] = s1 @ c # s2 \<longleftrightarrow> s1 = [] \<and> c = a \<and> s2 = []"
  by (cases s1) auto

lemma fail_stop_api: "fail_stop w (api w c)"
  by (rule fail_stopI) (auto simp: api_def single_decomp)

lemma fail_stop_bind:
  assumes m: "fail_stop w m" and f: "\<And>v. fail_stop w (f v)"
  shows "fail_stop w (io_bind m f)"
proof (rule fail_stopI)
  fix t
  obtain sa where sa: "snd (m t) = t @ sa"
    and pa: "\<And>s1 c s2 e. sa = s1 @ c # s2 \<Longrightarrow> w (t @ s1) c = Inl e \<Longrightarrow> \<not> caught c e
           \<Longrightarrow> s2 = [] \<and> fst (m t) = Inl e"
    using fail_stopD[OF m, of t] by blast
  show "\<exists>s. snd (io_bind m f t) = t @ s
        \<and> (\<forall>s1 c s2 e. s = s1 @ c # s2 \<and> w (t @ s1) c = Inl e \<and> \<not> caught c e
              \<longrightarrow> s2 = [] \<and> fst (io_bind m f t) = Inl e)"
  proof (cases "fst (m t)")
    case (Inl e1)
    then have b: "io_bind m f t = (Inl e1, t @ sa)"
      using sa by (cases "m t") (simp add: io_bind_def)
    show ?thesis
      apply (rule exI[where x = sa])
      using b pa Inl by auto
  next
    case (Inr v)
    obtain sb where sb: "snd (f v (t @ sa)) = (t @ sa) @ sb"
      and pb: "\<And>s1 c s2 e. sb = s1 @ c # s2 \<Longrightarrow> w ((t @ sa) @ s1) c = Inl e \<Longrightarrow> \<not> caught c e
           \<Longrightarrow> s2 = [] \<and> fst (f v (t @ sa)) = Inl e"
      using fail_stopD[OF f[of v], of "t @ sa"] by blast
    have b: "io_bind m f t = f v (t @ sa)"
      using Inr sa by (cases "m t") (simp add: io_bind_def)
    have "s2 = [] \<and> fst (f v (t @ sa)) = Inl e"
      if d: "sa @ sb = s1 @ c # s2" and fl: "w (t @ s1) c = Inl e" and nc: "\<not> caught c e"
      for s1 c s2 e
    proof -
      from d have "(\<exists>us'. sa = s1 @ c # us') \<or> (\<exists>us. s1 = sa @ us \<and> sb = us @ c # s2)"
        by (auto simp: append_eq_append_conv2 append_eq_Cons_conv)
      then show ?thesis
      proof
        assume "\<exists>us'. sa = s1 @ c # us'"
        then obtain us' where "sa = s1 @ c # us'" by blast
        from pa[OF this fl nc] Inr show ?thesis by simp
      next
        assume "\<exists>us. s1 = sa @ us \<and> sb = us @ c # s2"
        then obtain us where 2: "s1 = sa @ us" "sb = us @ c # s2" by blast
        have "w ((t @ sa) @ us) c = Inl e" using fl 2 by simp
        from pb[OF 2(2) this nc] show ?thesis .
      qed
    qed
    then show ?thesis
      apply (intro exI[where x = "sa @ sb"])
      using b sb by auto
  qed
qed


lemma fail_stop_try:
  assumes m: "fail_stop w m" and h: "\<And>e. fail_stop w (h e)"
    and u: "\<And>t e s1 c. m t = (Inl e, t @ s1 @ [c]) \<Longrightarrow> w (t @ s1) c = Inl e
              \<Longrightarrow> \<not> caught c e \<Longrightarrow> h e = io_raise e"
  shows "fail_stop w (io_try m h)"
proof (rule fail_stopI)
  fix t
  obtain sa where sa: "snd (m t) = t @ sa"
    and pa: "\<And>s1 c s2 e. sa = s1 @ c # s2 \<Longrightarrow> w (t @ s1) c = Inl e \<Longrightarrow> \<not> caught c e
           \<Longrightarrow> s2 = [] \<and> fst (m t) = Inl e"
    using fail_stopD[OF m, of t] by blast
  show "\<exists>s. snd (io_try m h t) = t @ s
        \<and> (\<forall>s1 c s2 e. s = s1 @ c # s2 \<and> w (t @ s1) c = Inl e \<and> \<not> caught c e
              \<longrightarrow> s2 = [] \<and> fst (io_try m h t) = Inl e)"
  proof (cases "fst (m t)")
    case (Inr v)
    then have b: "io_try m h t = (Inr v, t @ sa)"
      using sa by (cases "m t") (simp add: io_try_def)
    show ?thesis
      apply (rule exI[where x = sa])
      using b pa Inr by auto
  next
    case (Inl e1)
    have mt: "m t = (Inl e1, t @ sa)" using Inl sa by (cases "m t") simp
    obtain sb where sb: "snd (h e1 (t @ sa)) = (t @ sa) @ sb"
      and pb: "\<And>s1 c s2 e. sb = s1 @ c # s2 \<Longrightarrow> w ((t @ sa) @ s1) c = Inl e \<Longrightarrow> \<not> caught c e
           \<Longrightarrow> s2 = [] \<and> fst (h e1 (t @ sa)) = Inl e"
      using fail_stopD[OF h[of e1], of "t @ sa"] by blast
    have b: "io_try m h t = h e1 (t @ sa)"
      using mt by (simp add: io_try_def)
    have "s2 = [] \<and> fst (h e1 (t @ sa)) = Inl e"
      if d: "sa @ sb = s1 @ c # s2" and fl: "w (t @ s1) c = Inl e" and nc: "\<not> caught c e"
      for s1 c s2 e
    proof -
      from d have "(\<exists>us'. sa = s1 @ c # us' \<and> s2 = us' @ sb)
          \<or> (\<exists>us. s1 = sa @ us \<and> sb = us @ c # s2)"
        by (auto simp: append_eq_append_conv2 append_eq_Cons_conv)
      then show ?thesis
      proof
        assume "\<exists>us'. sa = s1 @ c # us' \<and> s2 = us' @ sb"
        then obtain us' where 1: "sa = s1 @ c # us'" "s2 = us' @ sb" by blast
        from pa[OF 1(1) fl nc] have us: "us' = []" and e1: "e1 = e" using Inl by simp_all
        have "m t = (Inl e, t @ s1 @ [c])" using mt 1(1) us e1 by simp
        from u[OF this fl nc] have he: "h e = io_raise e" .
        then have "h e1 (t @ sa) = (Inl e, t @ sa)" using e1 by (simp add: io_raise_def)
        with sb have "sb = []" by simp
        then show ?thesis using 1(2) us \<open>h e1 (t @ sa) = (Inl e, t @ sa)\<close> by simp
      next
        assume "\<exists>us. s1 = sa @ us \<and> sb = us @ c # s2"
        then obtain us where 2: "s1 = sa @ us" "sb = us @ c # s2" by blast
        have "w ((t @ sa) @ us) c = Inl e" using fl 2 by simp
        from pb[OF 2(2) this nc] show ?thesis .
      qed
    qed
    then show ?thesis
      apply (intro exI[where x = "sa @ sb"])
      using b sb by auto
  qed
qed

lemma fail_stop_try_api:
  assumes k: "\<And>v t. snd (k v t) = t"
    and h: "\<And>e. fail_stop w (h e)"
    and u: "\<And>e. \<not> caught c e \<Longrightarrow> h e = io_raise e"
  shows "fail_stop w (io_try (io_bind (api w c) k) h)"
proof (rule fail_stop_try)
  have "fail_stop w (k v)" for v
    by (rule fail_stopI) (simp add: k)
  then show "fail_stop w (io_bind (api w c) k)"
    by (intro fail_stop_bind fail_stop_api)
next
  fix e show "fail_stop w (h e)" by (rule h)
next
  fix t e s1 c'
  assume r: "io_bind (api w c) k t = (Inl e, t @ s1 @ [c'])"
    and fl: "w (t @ s1) c' = Inl e" and nc: "\<not> caught c' e"
  have "snd (io_bind (api w c) k t) = t @ [c]"
    using k by (auto simp: io_bind_def api_def split: sum.splits prod.splits)
  with r have "s1 = []" "c' = c" by simp_all
  with nc show "h e = io_raise e" using u by simp
qed

lemma expect_snd [simp]:
  "snd (expect_str r t) = t" "snd (expect_strs r t) = t" "snd (expect_opt_str r t) = t"
  "snd (expect_channels r t) = t" "snd (expect_dict r t) = t" "snd (expect_users r t) = t"
  by (cases r; simp add: io_return_def io_raise_def)+

lemma fail_stop_expect:
  "fail_stop w (expect_str r)" "fail_stop w (expect_strs r)" "fail_stop w (expect_opt_str r)"
  "fail_stop w (expect_channels r)" "fail_stop w (expect_dict r)" "fail_stop w (expect_users r)"
  by (rule fail_stopI, simp)+

lemmas fs_basic = fail_stop_bind fail_stop_api fail_stop_return fail_stop_raise
  fail_stop_of_result fail_stop_expect

lemma fs_respond: "fail_stop w (respond w message msg kw)"
  unfolding respond_def by (intro fs_basic)




lemma fs_room_id_if_exists: "fail_stop w (room_id_if_exists w room_alias)"
proof (cases "startswith room_alias ''!''")
  case True
  then show ?thesis by (simp add: room_id_if_exists_def fail_stop_return)
next
  case False
  have "fail_stop w (io_try
        (io_bind (api w (GetRoomId room_alias)) (\<lambda>r.
         io_bind (expect_str r) (\<lambda>room_id. io_return (Some room_id))))
        (\<lambda>e. case e of
           MatrixRequestError code content \<Rightarrow>
             if code \<noteq> 404 then io_raise e else io_return None
         | _ \<Rightarrow> io_raise e))"
  proof (rule fail_stop_try_api)
    fix v t show "snd (io_bind (expect_str v) (\<lambda>room_id. io_return (Some room_id)) t) = t"
      by (cases v) (simp_all add: io_bind_def io_return_def io_raise_def)
  next
    fix e show "fail_stop w (case e of
           MatrixRequestError code content \<Rightarrow>
             if code \<noteq> 404 then io_raise e else io_return None
         | _ \<Rightarrow> io_raise e)"
      by (cases e) (auto intro: fs_basic)
  next
    fix e assume "\<not> caught (GetRoomId room_alias) e"
    then show "(case e of
           MatrixRequestError code content \<Rightarrow>
             if code \<noteq> 404 then io_raise e else io_return None
         | _ \<Rightarrow> io_raise e) = io_raise e"
      by (cases e) auto
  qed
  with False show ?thesis by (simp add: room_id_if_exists_def)
qed

lemma fs_create_or_lookup:
  "fail_stop w (io_try (io_bind (api w (CreateRoom a)) expect_str)
                (\<lambda>e. case e of
                   MatrixRequestError code content \<Rightarrow>
                     io_bind (api w (GetRoomId room)) expect_str
                 | _ \<Rightarrow> io_raise e))"
proof (rule fail_stop_try_api)
  fix v t show "snd (expect_str v t) = t" by simp
next
  fix e show "fail_stop w (case e of
                   MatrixRequestError code content \<Rightarrow>
                     io_bind (api w (GetRoomId room)) expect_str
                 | _ \<Rightarrow> io_raise e)"
    by (cases e) (auto intro!: fs_basic)
next
  fix e assume "\<not> caught (CreateRoom a) e"
  then show "(case e of
                   MatrixRequestError code content \<Rightarrow>
                     io_bind (api w (GetRoomId room)) expect_str
                 | _ \<Rightarrow> io_raise e) = io_raise e"
    by (cases e) auto
qed

lemma fs_intent_self_in_room: "fail_stop w (intent_self_in_room w room)"
  unfolding intent_self_in_room_def
  by (auto simp: Let_def truthy_coroutine_def
      intro!: fs_basic fs_room_id_if_exists fs_create_or_lookup split: option.split)

lemma fs_invite_try:
  "fail_stop w (io_try (io_bind (api w (InviteUser rid user)) (\<lambda>_. io_return (Some rid)))
             (\<lambda>e. case e of
                MatrixRequestError code content \<Rightarrow>
                  if contains content ''already in the room'' then io_return (Some rid)
                  else io_return None
              | _ \<Rightarrow> io_raise e))"
proof (rule fail_stop_try_api)
  fix v :: resp and t show "snd (io_return (Some rid) t) = t" by (simp add: io_return_def)
next
  fix e show "fail_stop w (case e of
                MatrixRequestError code content \<Rightarrow>
                  if contains content ''already in the room'' then io_return (Some rid)
                  else io_return None
              | _ \<Rightarrow> io_raise e)"
    by (cases e) (auto intro!: fs_basic)
next
  fix e assume "\<not> caught (InviteUser rid user) e"
  then show "(case e of
                MatrixRequestError code content \<Rightarrow>
                  if contains content ''already in the room'' then io_return (Some rid)
                  else io_return None
              | _ \<Rightarrow> io_raise e) = io_raise e"
    by (cases e) auto
qed

lemma fs_intent_user_in_room: "fail_stop w (intent_user_in_room w user room)"
  unfolding intent_user_in_room_def
  by (auto intro!: fs_basic fs_room_id_if_exists fs_invite_try split: option.split)

lemma fs_slack_invite_try:
  "fail_stop w (io_try (io_bind (api w (SlackChannelsInvite channel_id bot_id)) (\<lambda>_. io_return ()))
           (\<lambda>e. case e of SlackerError \<Rightarrow> io_return () | _ \<Rightarrow> io_raise e))"
proof (rule fail_stop_try_api)
  fix v :: resp and t show "snd (io_return () t) = t" by (simp add: io_return_def)
next
  fix e show "fail_stop w (case e of SlackerError \<Rightarrow> io_return () | _ \<Rightarrow> io_raise e)"
    by (cases e) (auto intro!: fs_basic)
next
  fix e assume "\<not> caught (SlackChannelsInvite channel_id bot_id) e"
  then show "(case e of SlackerError \<Rightarrow> io_return () | _ \<Rightarrow> io_raise e) = io_raise e"
    by (cases e) auto
qed

lemma fs_join_bot_to_channel: "fail_stop w (join_bot_to_channel w cfg bot_id channel_id)"
  unfolding join_bot_to_channel_def get_room_members_def
  by (auto intro!: fs_basic fs_slack_invite_try)



lemma fs_set_power_levels: "fail_stop w (set_power_levels w room_alias pl)"
  unfolding set_power_levels_def
  by (auto intro!: fs_basic fs_room_id_if_exists split: option.split)

lemma fs_get_power_levels: "fail_stop w (get_power_levels w room_alias)"
  unfolding get_power_levels_def
  by (auto intro!: fs_basic fs_room_id_if_exists split: option.split)

lemma fs_add_admin_users: "fail_stop w (add_admin_users w room_id users pl)"
  by (induction users arbitrary: pl)
     (auto intro!: fs_basic fs_intent_user_in_room)

lemma fs_configure_room_power_levels: "fail_stop w (configure_room_power_levels w cfg room_alias)"
  unfolding configure_room_power_levels_def
  by (auto simp: Let_def intro!: fs_basic fs_room_id_if_exists fs_get_power_levels
      fs_add_admin_users fs_set_power_levels split: option.split)

lemma fs_user_in_state: "fail_stop w (user_in_state w roomid user)"
  unfolding user_in_state_def by (intro fs_basic)

lemma fs_set_room_avatar: "fail_stop w (set_room_avatar w room_id avatar_url)"
  unfolding set_room_avatar_def upload_image_to_matrix_call_def
  by (auto intro!: fs_basic)

lemma fs_set_name_topic_avatar: "fail_stop w (set_name_topic_avatar w cfg room_id channel_name topic)"
  unfolding set_name_topic_avatar_def
  by (auto simp: Let_def intro!: fs_basic fs_set_room_avatar split: option.split)

lemma fs_make_room_public: "fail_stop w (make_room_public w cfg message room_id room_alias)"
proof -
  let ?c1 = "SendStateEvent room_id ''m.room.join_rules'' (JObj [(''join_rule'', JStr ''public'')])"
  let ?c2 = "SendStateEvent room_id ''m.room.history_visibility''
                             (JObj [(''history_visibility'', JStr ''world_readable'')])"
  let ?body = "io_bind (api w ?c1) (\<lambda>_. io_bind (api w ?c2) (\<lambda>_. io_return ()))"
  have "fail_stop w (io_try ?body
          (\<lambda>e. respond w message
                  (''ERROR: Could not make '' @ room_alias @ '' publically joinable.'') None))"
  proof (rule fail_stop_try)
    show "fail_stop w ?body" by (intro fs_basic)
  next
    fix e show "fail_stop w (respond w message
                  (''ERROR: Could not make '' @ room_alias @ '' publically joinable.'') None)"
      by (rule fs_respond)
  next
    fix t e s1 c
    assume r: "?body t = (Inl e, t @ s1 @ [c])" and nc: "\<not> caught c e"
    have "snd (?body t) = t @ [?c1] \<or> snd (?body t) = t @ [?c1, ?c2]"
      by (auto simp: io_bind_def api_def io_return_def split: sum.splits)
    with r have "c = ?c1 \<or> c = ?c2" by auto
    with nc have False by auto
    then show "respond w message
        (''ERROR: Could not make '' @ room_alias @ '' publically joinable.'') None = io_raise e" ..
  qed
  then show ?thesis
    unfolding make_room_public_def by (auto intro!: fs_basic)
qed

lemma fs_invite_users: "fail_stop w (invite_users w room_id users)"
  by (induction users) (auto intro!: fs_basic fs_intent_user_in_room)

lemma fs_invite_community_users: "fail_stop w (invite_community_users w room_id users)"
  by (induction users) (auto intro!: fs_basic fs_intent_user_in_room fs_user_in_state)

lemma fs_get_related_groups: "fail_stop w (get_related_groups w roomid)"
  unfolding get_related_groups_def
proof (rule fail_stop_try_api)
  fix v t show "snd (io_bind (expect_dict v) (\<lambda>json.
          case map_of json ''groups'' of
            None \<Rightarrow> io_raise KeyError
          | Some (JArr gs) \<Rightarrow>
              (case json_strs gs of None \<Rightarrow> io_raise TypeError | Some groups \<Rightarrow> io_return groups)
          | Some _ \<Rightarrow> io_raise TypeError) t) = t"
    by (cases v) (auto simp: io_bind_def io_return_def io_raise_def split: option.split json.split)
next
  fix e show "fail_stop w (case e of
          MatrixRequestError code content \<Rightarrow>
            if code \<noteq> 404 then io_raise e else io_return []
        | _ \<Rightarrow> io_raise e)"
    by (cases e) (auto intro!: fs_basic)
next
  fix e assume "\<not> caught (GetStateEvent roomid ''m.room.related_groups'') e"
  then show "(case e of
          MatrixRequestError code content \<Rightarrow>
            if code \<noteq> 404 then io_raise e else io_return []
        | _ \<Rightarrow> io_raise e) = io_raise e"
    by (cases e) auto
qed

lemma fs_update_related_groups: "fail_stop w (update_related_groups w roomid communities)"
  unfolding update_related_groups_def set_related_groups_def
  by (auto simp: Let_def intro!: fs_basic fs_get_related_groups)

lemma fs_add_room_try:
  "fail_stop w (io_try (io_bind (api w (AddRoomToGroup g room_id)) (\<lambda>_. io_return ()))
                     (\<lambda>e. io_return ()))"
proof (rule fail_stop_try_api)
  fix v :: resp and t show "snd (io_return () t) = t" by (simp add: io_return_def)
next
  fix e :: exn show "fail_stop w (io_return ())" by (rule fail_stop_return)
next
  fix e assume "\<not> caught (AddRoomToGroup g room_id) e"
  then show "io_return () = io_raise e" by simp
qed

lemma fs_link_and_invite:
  "fail_stop w (link_and_invite w cfg message community rooms channel_id room_alias room_id)"
  unfolding link_and_invite_def
  by (auto intro!: fs_basic fs_configure_room_power_levels fs_update_related_groups fs_respond
      fs_invite_users fs_add_room_try fs_invite_community_users split: option.split)

lemma fs_mirror_channel:
  "fail_stop w (mirror_channel w cfg message bot_id community rooms entry)"
  unfolding mirror_channel_def
  by (auto intro!: fs_basic fs_join_bot_to_channel fs_intent_self_in_room
      fs_set_name_topic_avatar fs_make_room_public fs_intent_user_in_room fs_respond
      fs_link_and_invite split: option.split prod.split)

lemma fs_mirror_channels_loop:
  "fail_stop w (mirror_channels_loop w cfg message bot_id community rooms entries)"
  by (induction entries) (auto intro!: fs_basic fs_mirror_channel)



section \<open>The sweep and the Ledger\<close>

lemmas io_defs = io_bind_def io_try_def io_return_def io_raise_def api_def respond_def io_of_result_def

lemmas sweep_defs = mirror_slack_channels_def mirror_new_channels_def sweep_prelude_def
  mirror_channel_def
  link_and_invite_def make_room_public_def set_name_topic_avatar_def set_room_avatar_def
  configure_room_power_levels_def get_power_levels_def set_power_levels_def
  admin_of_community_def join_bot_to_channel_def get_room_members_def
  intent_user_in_room_def intent_self_in_room_def room_id_if_exists_def
  get_new_channels_def get_channel_mapping_def sweep_message_def ledger_of_def dict_update_def
  truthy_str_def truthy_coroutine_def startswith_def upload_image_to_matrix_call_def

lemma dict_update_keys: "fst ` set (dict_update d new) = fst ` set d \<union> fst ` set new"
  unfolding dict_update_def
  by (induction new arbitrary: d) (auto simp: dom_update)

lemma dict_update_other:
  "k \<notin> fst ` set new \<Longrightarrow> map_of (dict_update d new) k = map_of d k"
  unfolding dict_update_def
  by (induction new arbitrary: d) (auto simp: update_conv')

lemma dict_update_entry:
  "distinct (map fst new) \<Longrightarrow>
     map_of (dict_update d new) k = (case map_of new k of Some v \<Rightarrow> Some v | None \<Rightarrow> map_of d k)"
  unfolding dict_update_def
proof (induction new arbitrary: d)
  case Nil
  then show ?case by simp
next
  case (Cons a new)
  obtain k' v' where a: "a = (k', v')" by (cases a)
  from Cons.prems a have d: "distinct (map fst new)" and n: "k' \<notin> fst ` set new" by auto
  have m: "map_of new k' = None" using n by (simp add: map_of_eq_None_iff)
  show ?case
    using Cons.IH[OF d, of "AList.update k' v' d"] a m
    by (auto simp: update_conv' split: option.splits)
qed

lemma get_new_channels_loop_distinct:
  "get_new_channels_loop w cfg seen channels new t = (Inr new', t') \<Longrightarrow>
     distinct (map fst new) \<Longrightarrow> distinct (map fst new')"
proof (induction channels arbitrary: new t)
  case Nil
  then show ?case by (simp add: io_return_def)
next
  case (Cons c cs)
  show ?case
  proof (cases "is_archived c \<or> c_id c \<in> set (map fst seen)")
    case True
    with Cons.prems(1) have "get_new_channels_loop w cfg seen cs new t = (Inr new', t')"
      by (cases "is_archived c") (simp_all split: if_splits)
    from Cons.IH[OF this Cons.prems(2)] show ?thesis .
  next
    case False
    with Cons.prems(1) obtain n t1 where
      "get_new_channels_loop w cfg seen cs
         (AList.update (c_id c)
            (n, ''#'' @ room_alias_prefix cfg @ n @ '':'' @ server_name cfg, topic_value c) new) t1
        = (Inr new', t')"
      by (auto simp: io_bind_def io_raise_def Let_def split: prod.splits sum.splits option.splits)
    from Cons.IH[OF this distinct_update[OF Cons.prems(2)]] show ?thesis .
  qed
qed

lemma get_new_channels_distinct:
  assumes "get_new_channels w cfg seen t = (Inr new, t')"
  shows "distinct (map fst new)"
proof -
  from assms obtain channels t1 where
    "get_new_channels_loop w cfg seen channels [] t1 = (Inr new, t')"
    by (auto simp: get_new_channels_def io_bind_def split: prod.splits sum.splits)
  from get_new_channels_loop_distinct[OF this] show ?thesis by simp
qed

lemma expect_opt_str_hist: "expect_opt_str r t = (x, t') \<Longrightarrow> t' = t"
  by (cases r) (auto simp: io_return_def io_raise_def)

lemma mirror_new_channels_discovered:
  assumes "mirror_new_channels w conn cfg message seen t = (Inr new, t1)"
  shows "\<exists>t0'. get_new_channels w cfg seen (t @ [SlackGetUserId (bridge_bot_name cfg)])
            = (Inr new, t0')"
  using assms unfolding mirror_new_channels_def sweep_prelude_def io_bind_def io_return_def api_def
  by (auto split: prod.splits sum.splits dest!: expect_opt_str_hist)

lemma sweep_memory_raise:
  assumes "mirror_new_channels w conn cfg (sweep_message conn cfg message) (ledger_of mem) t = (Inl e, t1)"
  shows "snd (mirror_slack_channels w conn cfg message mem t) = mem"
  using assms by (simp add: mirror_slack_channels_def Let_def)

lemma sweep_memory_nothing_new:
  assumes "mirror_new_channels w conn cfg (sweep_message conn cfg message) (ledger_of mem) t = (Inr [], t1)"
  shows "snd (mirror_slack_channels w conn cfg message mem t) = mem"
  using assms by (simp add: mirror_slack_channels_def Let_def)

lemma sweep_memory_commit:
  assumes "mirror_new_channels w conn cfg (sweep_message conn cfg message) (ledger_of mem) t = (Inr new, t1)"
    and "new \<noteq> []"
  shows "snd (mirror_slack_channels w conn cfg message mem t) =
           mem\<lparr>seen_channels := Some (dict_update (ledger_of mem) new),
               put_log := put_log mem @ [''seen_channels'']\<rparr>"
  using assms by (simp add: mirror_slack_channels_def Let_def)

lemma rediscovery_empty:
  assumes st: "\<forall>t. w t SlackChannelsList = Inr (RChannels channels)"
    and g: "get_new_channels w cfg seen t0 = (Inr new, t0')"
  shows "\<exists>t'. get_new_channels w cfg (dict_update seen new) t = (Inr [], t')"
proof -
  let ?m = "foldl (\<lambda>d c. AList.update (c_id c) (c_name c) d) [] channels"
  obtain t0'' where "get_new_channels w cfg seen t0 = (Inr (discovered cfg seen ?m channels []), t0'')"
    using get_new_channels_stable[where w=w and channels=channels, OF st] by blast
  with g have new: "new = discovered cfg seen ?m channels []" by simp
  have k: "fst ` set new = {c_id c |c. c \<in> set channels \<and> is_new seen c}"
    unfolding new discovered_keys by simp
  have "\<forall>c \<in> set channels. \<not> is_new (dict_update seen new) c"
  proof
    fix c assume c: "c \<in> set channels"
    show "\<not> is_new (dict_update seen new) c"
    proof (cases "is_new seen c")
      case True
      then have "c_id c \<in> fst ` set new" using k c by blast
      then show ?thesis by (simp add: is_new_def dict_update_keys)
    next
      case False
      then show ?thesis by (auto simp: is_new_def dict_update_keys)
    qed
  qed
  then have "discovered cfg (dict_update seen new) ?m channels [] = []"
    by (simp only: discovered_empty_iff)
  then show ?thesis
    using get_new_channels_stable[where w=w and channels=channels and cfg=cfg
        and seen="dict_update seen new" and t=t, OF st] by simp
qed

text \<open>
  When the workspace has no user of the bridge bot's name, the sweep goes on with
  \<open>None\<close> for the bot: it invites \<open>None\<close> to the channel, provisions the room and
  writes the Ledger.
\<close>

lemma sweep_with_unknown_bot:
  "mirror_slack_channels unknown_bot_world example_connector example_config None empty_memory []
   = ((Inr (),
       [SlackGetUserId ''bot'', SlackChannelsList, SlackChannelsList,
        SlackConversationsMembers ''C1'', SlackChannelsInvite ''C1'' None,
        GetRoomId ''#br-general:example.org'',
        SetRoomName ''!r1:example.org'' ''br-general'',
        SetRoomTopic ''!r1:example.org'' ''talk'',
        InviteUser ''!r1:example.org'' ''@as:example.org'',
        GetPowerLevels ''!r1:example.org'',
        Respond ''main''
          ''link --channel_id C1 --room !r1:example.org --slack_bot_token xb --slack_user_token xu''
          (Some ''bridge''),
        Respond ''main'' ''Finished Adding room #br-general:example.org'' None,
        Respond ''main'' ''Finished adding all rooms.'' None]),
      empty_memory\<lparr>seen_channels :=
                      Some [(''C1'', ''general'', ''#br-general:example.org'', ''talk'')],
                    put_log := [''seen_channels'']\<rparr>)"
  by (simp add: sweep_defs io_defs unknown_bot_world_def example_connector_def example_config_def
      example_channels_def empty_memory_def)

text \<open>
  C1, as the claim states it, fails. The appservice invite for the only new channel is
  refused; the pass reports "skipping channel" and the sweep still writes the channel
  into the Ledger.
\<close>

theorem sweep_commits_skipped_channel_counterexample:
  "mirror_slack_channels invite_fails_world example_connector example_config None empty_memory []
   = ((Inr (),
  [SlackGetUserId ''bot'', SlackChannelsList, SlackChannelsList,
   SlackConversationsMembers ''C1'', GetRoomId ''#br-general:example.org'',
   SetRoomName ''!r1:example.org'' ''br-general'',
   SetRoomTopic ''!r1:example.org'' ''talk'',
   InviteUser ''!r1:example.org'' ''@as:example.org'',
   Respond ''main''
    ''ERROR: Could not invite appservice botto #br-general:example.org, skipping channel.''
    None,
   Respond ''main'' ''Finished adding all rooms.'' None]),
   empty_memory\<lparr>seen_channels := Some [(''C1'', ''general'', ''#br-general:example.org'', ''talk'')],
       put_log := [''seen_channels'']\<rparr>)"
  by (simp add: sweep_defs io_defs invite_fails_world_def example_connector_def example_config_def
      example_channels_def empty_memory_def)

text \<open>
  C1, amended. Take a sweep whose loop runs to its end, and let \<open>new\<close> be what
  \<open>get_new_channels\<close> returned in it (right after the bot's id was looked up). When
  \<open>new\<close> is not empty the sweep puts the Ledger once, and the Ledger it puts is the old
  one updated with \<open>new\<close>: every discovered channel id is mapped to the entry discovery
  gave it, whatever happened in that channel's pass, and every other key keeps its old
  entry. When \<open>new\<close> is empty the memory is left as it was. When the workspace lists the
  same channels throughout, the discovered ids are exactly the ids of the channels that
  are not archived and not keys of the old Ledger, each (with unique channel ids) entered
  as (name, alias, topic), and a discovery on the written Ledger finds nothing new. When
  an exception leaves the loop or what precedes it, the memory is left as it was.
\<close>

theorem sweep_commits_every_discovered_channel:
  "(\<forall>new t1.
      mirror_new_channels w conn cfg (sweep_message conn cfg message) (ledger_of mem) t
        = (Inr new, t1) \<longrightarrow>
      (\<exists>t0'. get_new_channels w cfg (ledger_of mem)
                (t @ [SlackGetUserId (bridge_bot_name cfg)]) = (Inr new, t0'))
      \<and> (new \<noteq> [] \<longrightarrow>
            snd (mirror_slack_channels w conn cfg message mem t)
              = mem\<lparr>seen_channels := Some (dict_update (ledger_of mem) new),
                    put_log := put_log mem @ [''seen_channels'']\<rparr>
            \<and> (\<forall>k. map_of (ledger_of (snd (mirror_slack_channels w conn cfg message mem t))) k
                      = (case map_of new k of
                           Some entry \<Rightarrow> Some entry
                         | None \<Rightarrow> map_of (ledger_of mem) k)))
      \<and> (new = [] \<longrightarrow> snd (mirror_slack_channels w conn cfg message mem t) = mem)
      \<and> ((\<forall>t. w t SlackChannelsList = Inr (RChannels channels)) \<longrightarrow>
            fst ` set new =
              {c_id c |c. c \<in> set channels \<and> \<not> is_archived c
                          \<and> c_id c \<notin> set (map fst (ledger_of mem))}
            \<and> (distinct (map c_id channels) \<longrightarrow>
                 (\<forall>c \<in> set channels.
                    \<not> is_archived c \<and> c_id c \<notin> set (map fst (ledger_of mem)) \<longrightarrow>
                    map_of new (c_id c) =
                      Some (c_name c,
                            ''#'' @ room_alias_prefix cfg @ c_name c @ '':'' @ server_name cfg,
                            topic_value c)))
            \<and> (\<forall>t2. \<exists>t3. get_new_channels w cfg (dict_update (ledger_of mem) new) t2
                            = (Inr [], t3))))
   \<and> (\<forall>e t1.
        mirror_new_channels w conn cfg (sweep_message conn cfg message) (ledger_of mem) t
          = (Inl e, t1) \<longrightarrow>
        snd (mirror_slack_channels w conn cfg message mem t) = mem)"
proof (intro conjI allI impI ballI)
  fix new t1
  assume r: "mirror_new_channels w conn cfg (sweep_message conn cfg message) (ledger_of mem) t
              = (Inr new, t1)"
  obtain t0' where g: "get_new_channels w cfg (ledger_of mem)
                (t @ [SlackGetUserId (bridge_bot_name cfg)]) = (Inr new, t0')"
    using mirror_new_channels_discovered[OF r] by blast
  then show "\<exists>t0'. get_new_channels w cfg (ledger_of mem)
                (t @ [SlackGetUserId (bridge_bot_name cfg)]) = (Inr new, t0')" by blast
  note dn = get_new_channels_distinct[OF g]
  {
    assume ne: "new \<noteq> []"
    note c = sweep_memory_commit[OF r ne]
    show "snd (mirror_slack_channels w conn cfg message mem t)
              = mem\<lparr>seen_channels := Some (dict_update (ledger_of mem) new),
                    put_log := put_log mem @ [''seen_channels'']\<rparr>"
      by (rule c)
    fix k
    show "map_of (ledger_of (snd (mirror_slack_channels w conn cfg message mem t))) k
            = (case map_of new k of Some entry \<Rightarrow> Some entry | None \<Rightarrow> map_of (ledger_of mem) k)"
      unfolding c using dict_update_entry[OF dn, of "ledger_of mem" k]
      by (simp add: ledger_of_def)
  }
  {
    assume "new = []"
    then show "snd (mirror_slack_channels w conn cfg message mem t) = mem"
      using sweep_memory_nothing_new r by blast
  }
  {
    assume st: "\<forall>t. w t SlackChannelsList = Inr (RChannels channels)"
    let ?m = "foldl (\<lambda>d c. AList.update (c_id c) (c_name c) d) [] channels"
    obtain t0'' where "get_new_channels w cfg (ledger_of mem)
        (t @ [SlackGetUserId (bridge_bot_name cfg)])
        = (Inr (discovered cfg (ledger_of mem) ?m channels []), t0'')"
      using get_new_channels_stable[where w=w and channels=channels, OF st] by blast
    with g have new: "new = discovered cfg (ledger_of mem) ?m channels []" by simp
    show "fst ` set new =
              {c_id c |c. c \<in> set channels \<and> \<not> is_archived c
                          \<and> c_id c \<notin> set (map fst (ledger_of mem))}"
      unfolding new discovered_keys by (auto simp: is_new_def)
    show "\<exists>t3. get_new_channels w cfg (dict_update (ledger_of mem) new) t2 = (Inr [], t3)" for t2
      using rediscovery_empty[OF st g] by blast
    fix c
    assume di: "distinct (map c_id channels)" and c: "c \<in> set channels"
      and n: "\<not> is_archived c \<and> c_id c \<notin> set (map fst (ledger_of mem))"
    have "is_new (ledger_of mem) c" using n by (simp add: is_new_def)
    with di c have "map_of new (c_id c) = Some (entry_of cfg ?m c)"
      unfolding new by (rule discovered_value)
    then show "map_of new (c_id c) =
                      Some (c_name c,
                            ''#'' @ room_alias_prefix cfg @ c_name c @ '':'' @ server_name cfg,
                            topic_value c)"
      by (simp add: entry_of_def Let_def channel_mapping_lookup_distinct[OF c di])
  }
next
  fix e t1
  assume "mirror_new_channels w conn cfg (sweep_message conn cfg message) (ledger_of mem) t
              = (Inl e, t1)"
  then show "snd (mirror_slack_channels w conn cfg message mem t) = mem"
    by (rule sweep_memory_raise)
qed

theorem sweep_commits_every_discovered_channel_witness:
  "(\<forall>t. invite_fails_world t SlackChannelsList = Inr (RChannels example_channels))
   \<and> mirror_new_channels invite_fails_world example_connector example_config
        (sweep_message example_connector example_config None) (ledger_of empty_memory) []
       = (Inr [(''C1'', ''general'', ''#br-general:example.org'', ''talk'')],
          [SlackGetUserId ''bot'', SlackChannelsList, SlackChannelsList,
           SlackConversationsMembers ''C1'', GetRoomId ''#br-general:example.org'',
           SetRoomName ''!r1:example.org'' ''br-general'',
           SetRoomTopic ''!r1:example.org'' ''talk'',
           InviteUser ''!r1:example.org'' ''@as:example.org'',
           Respond ''main''
             ''ERROR: Could not invite appservice botto #br-general:example.org, skipping channel.''
             None])
   \<and> snd (mirror_slack_channels invite_fails_world example_connector example_config None
             empty_memory [])
       = empty_memory\<lparr>seen_channels :=
                        Some (dict_update (ledger_of empty_memory)
                                [(''C1'', ''general'', ''#br-general:example.org'', ''talk'')]),
                      put_log := put_log empty_memory @ [''seen_channels'']\<rparr>
   \<and> map_of (ledger_of (snd (mirror_slack_channels invite_fails_world example_connector
                                 example_config None empty_memory []))) ''C1''
       = Some (''general'', ''#br-general:example.org'', ''talk'')
   \<and> (\<exists>t3. get_new_channels invite_fails_world example_config
               (dict_update (ledger_of empty_memory)
                  [(''C1'', ''general'', ''#br-general:example.org'', ''talk'')]) []
             = (Inr [], t3))"
proof -
  let ?new = "[(''C1'', ''general'', ''#br-general:example.org'', ''talk'')] :: ledger"
  let ?t1 = "[SlackGetUserId ''bot'', SlackChannelsList, SlackChannelsList,
           SlackConversationsMembers ''C1'', GetRoomId ''#br-general:example.org'',
           SetRoomName ''!r1:example.org'' ''br-general'',
           SetRoomTopic ''!r1:example.org'' ''talk'',
           InviteUser ''!r1:example.org'' ''@as:example.org'',
           Respond ''main''
             ''ERROR: Could not invite appservice botto #br-general:example.org, skipping channel.''
             None]"
  have h: "\<forall>t. invite_fails_world t SlackChannelsList = Inr (RChannels example_channels)"
    by (simp add: invite_fails_world_def)
  have r: "mirror_new_channels invite_fails_world example_connector example_config
        (sweep_message example_connector example_config None) (ledger_of empty_memory) []
       = (Inr ?new, ?t1)"
    by (simp add: sweep_defs io_defs invite_fails_world_def example_connector_def
        example_config_def example_channels_def empty_memory_def)
  have ne: "?new \<noteq> []" by simp
  note T = sweep_commits_every_discovered_channel[where w=invite_fails_world
      and channels=example_channels and conn=example_connector and cfg=example_config
      and message=None and mem=empty_memory and t="[]",
      THEN conjunct1, THEN spec, THEN spec, THEN mp, OF r]
  note C = T[THEN conjunct2, THEN conjunct1, THEN mp, OF ne]
  have m: "snd (mirror_slack_channels invite_fails_world example_connector example_config None
             empty_memory [])
       = empty_memory\<lparr>seen_channels := Some (dict_update (ledger_of empty_memory) ?new),
                      put_log := put_log empty_memory @ [''seen_channels'']\<rparr>"
    by (rule C[THEN conjunct1])
  have "map_of (ledger_of (snd (mirror_slack_channels invite_fails_world example_connector
                                 example_config None empty_memory []))) ''C1''
       = (case map_of ?new ''C1'' of Some entry \<Rightarrow> Some entry
          | None \<Rightarrow> map_of (ledger_of empty_memory) ''C1'')"
    by (rule C[THEN conjunct2, THEN spec])
  then have e: "map_of (ledger_of (snd (mirror_slack_channels invite_fails_world example_connector
                                 example_config None empty_memory []))) ''C1''
       = Some (''general'', ''#br-general:example.org'', ''talk'')"
    by simp
  have g: "\<exists>t3. get_new_channels invite_fails_world example_config
               (dict_update (ledger_of empty_memory) ?new) [] = (Inr [], t3)"
    by (rule T[THEN conjunct2, THEN conjunct2, THEN conjunct2, THEN mp, OF h,
          THEN conjunct2, THEN conjunct2, THEN spec])
  show ?thesis
    by (intro conjI) (rule h r m e g)+
qed

section \<open>The sweep and the room options\<close>

lemma fail_stop_extends:
  assumes "fail_stop w m"
  shows "\<exists>s. snd (m t) = t @ s"
  using fail_stopD[OF assms, of t] by blast

lemma sweep_ignores_options:
  "fst (mirror_slack_channels w conn cfg message (mem\<lparr>picard_options := opts\<rparr>) t)
     = fst (mirror_slack_channels w conn cfg message mem t)"
  by (simp add: mirror_slack_channels_def ledger_of_def Let_def split: prod.splits sum.splits)

lemma set_name_topic_avatar_calls:
  assumes n: "\<forall>t' n. \<exists>r. w t' (SetRoomName room_id n) = Inr r"
    and tp: "\<forall>t' n. \<exists>r. w t' (SetRoomTopic room_id n) = Inr r"
  shows "snd (set_name_topic_avatar w cfg room_id channel_name topic t) =
       t @ name_topic_avatar_calls cfg room_id channel_name topic"
proof -
  let ?name = "(case room_name_prefix cfg of None \<Rightarrow> room_alias_prefix cfg | Some p \<Rightarrow> p) @ channel_name"
  obtain r1 where r1: "w t (SetRoomName room_id ?name) = Inr r1" using n by blast
  obtain r2 where r2: "w (t @ [SetRoomName room_id ?name]) (SetRoomTopic room_id topic) = Inr r2"
    using tp by blast
  show ?thesis
    using r1 r2
    by (auto simp: set_name_topic_avatar_def set_room_avatar_def upload_image_to_matrix_call_def
        name_topic_avatar_calls_def io_defs Let_def split: option.splits sum.splits prod.splits)
qed

lemma set_name_topic_avatar_returned:
  assumes "set_name_topic_avatar w cfg room_id channel_name topic t = (Inr u, t')"
  shows "t' = t @ name_topic_avatar_calls cfg room_id channel_name topic
       \<and> (\<forall>url. room_avatar_url cfg = Some url \<and> url \<noteq> [] \<longrightarrow> startswith url ''mxc'')"
  using assms
  by (auto simp: set_name_topic_avatar_def set_room_avatar_def upload_image_to_matrix_call_def
        name_topic_avatar_calls_def io_defs Let_def
      split: option.splits sum.splits prod.splits if_splits)

lemma fs_after_name:
  "fail_stop w (io_bind (make_room_public w cfg message room_id room_alias) (\<lambda>_.
        io_bind (intent_user_in_room w (as_userid cfg) room_id) (\<lambda>room_id.
          case room_id of
            None \<Rightarrow>
              respond w message
                (''ERROR: Could not invite appservice bot'' @ ''to '' @ room_alias
                   @ '', skipping channel.'') None
          | Some room_id \<Rightarrow>
              link_and_invite w cfg message community rooms
                channel_id room_alias room_id)))"
  by (auto intro!: fs_basic fs_make_room_public fs_intent_user_in_room fs_respond
      fs_link_and_invite split: option.split)

lemma mirror_channel_after_resolution:
  assumes j: "join_bot_to_channel w cfg bot_id channel_id t = (Inr (), t1)"
    and i: "intent_self_in_room w room_alias t1 = (Inr room_id, t2)"
  shows "\<exists>s. snd (mirror_channel w cfg message bot_id community rooms
                    (channel_id, channel_name, room_alias, topic) t)
           = snd (set_name_topic_avatar w cfg room_id channel_name topic t2) @ s"
proof (cases "set_name_topic_avatar w cfg room_id channel_name topic t2")
  case (Pair r3 t3)
  show ?thesis
  proof (cases r3)
    case (Inl e)
    then have "mirror_channel w cfg message bot_id community rooms
                    (channel_id, channel_name, room_alias, topic) t = (Inl e, t3)"
      using j i Pair by (simp add: mirror_channel_def io_bind_def)
    then show ?thesis using Pair by simp
  next
    case (Inr u)
    let ?rest = "io_bind (make_room_public w cfg message room_id room_alias) (\<lambda>_.
        io_bind (intent_user_in_room w (as_userid cfg) room_id) (\<lambda>room_id.
          case room_id of
            None \<Rightarrow>
              respond w message
                (''ERROR: Could not invite appservice bot'' @ ''to '' @ room_alias
                   @ '', skipping channel.'') None
          | Some room_id \<Rightarrow>
              link_and_invite w cfg message community rooms
                channel_id room_alias room_id))"
    have "mirror_channel w cfg message bot_id community rooms
                    (channel_id, channel_name, room_alias, topic) t = ?rest t3"
      using j i Pair Inr by (simp add: mirror_channel_def io_bind_def)
    moreover obtain s where "snd (?rest t3) = t3 @ s"
      using fail_stop_extends[OF fs_after_name] by blast
    ultimately show ?thesis using Pair by simp
  qed
qed

lemma mirror_channel_returned:
  assumes "mirror_channel w cfg message bot_id community rooms
             (channel_id, channel_name, room_alias, topic) t = (Inr u, t')"
  shows "\<exists>room_id t2 s. t' = t2 @ name_topic_avatar_calls cfg room_id channel_name topic @ s
       \<and> (\<forall>url. room_avatar_url cfg = Some url \<and> url \<noteq> [] \<longrightarrow> startswith url ''mxc'')"
proof -
  from assms obtain t1 room_id t2 t3 where
    j: "join_bot_to_channel w cfg bot_id channel_id t = (Inr (), t1)"
    and i: "intent_self_in_room w room_alias t1 = (Inr room_id, t2)"
    and n: "set_name_topic_avatar w cfg room_id channel_name topic t2 = (Inr (), t3)"
    by (auto simp: mirror_channel_def io_bind_def split: prod.splits sum.splits)
  from set_name_topic_avatar_returned[OF n]
  have t3: "t3 = t2 @ name_topic_avatar_calls cfg room_id channel_name topic"
    and a: "\<forall>url. room_avatar_url cfg = Some url \<and> url \<noteq> [] \<longrightarrow> startswith url ''mxc''"
    by simp_all
  from mirror_channel_after_resolution[OF j i, of message community rooms channel_name topic]
  obtain s where "snd (mirror_channel w cfg message bot_id community rooms
                    (channel_id, channel_name, room_alias, topic) t) = t3 @ s"
    using n by auto
  with assms have "t' = t3 @ s" by simp
  with t3 a show ?thesis by auto
qed

lemma name_topic_avatar_calls_members:
  assumes "\<forall>url. room_avatar_url cfg = Some url \<and> url \<noteq> [] \<longrightarrow> startswith url ''mxc''"
  shows "SetRoomName room_id
           ((case room_name_prefix cfg of None \<Rightarrow> room_alias_prefix cfg | Some p \<Rightarrow> p)
              @ channel_name) \<in> set (name_topic_avatar_calls cfg room_id channel_name topic)
       \<and> (topic \<noteq> [] \<longrightarrow>
            SetRoomTopic room_id topic \<in> set (name_topic_avatar_calls cfg room_id channel_name topic))
       \<and> (\<forall>url. room_avatar_url cfg = Some url \<and> url \<noteq> [] \<longrightarrow>
            SendStateEvent room_id ''m.room.avatar'' (JObj [(''url'', JStr url)])
              \<in> set (name_topic_avatar_calls cfg room_id channel_name topic))"
  using assms by (auto simp: name_topic_avatar_calls_def)

lemma loop_returned_calls:
  assumes "mirror_channels_loop w cfg message bot_id community rooms entries t = (Inr u, t')"
    and "(channel_id, channel_name, room_alias, topic) \<in> set entries"
  shows "\<exists>room_id. set (name_topic_avatar_calls cfg room_id channel_name topic) \<subseteq> set t'
       \<and> (\<forall>url. room_avatar_url cfg = Some url \<and> url \<noteq> [] \<longrightarrow> startswith url ''mxc'')"
  using assms
proof (induction entries arbitrary: t)
  case Nil
  then show ?case by simp
next
  case (Cons entry rest)
  from Cons.prems(1) obtain t1 where
    p: "mirror_channel w cfg message bot_id community rooms entry t = (Inr (), t1)"
    and l: "mirror_channels_loop w cfg message bot_id community rooms rest t1 = (Inr u, t')"
    by (auto simp: io_bind_def split: prod.splits sum.splits)
  show ?case
  proof (cases "entry = (channel_id, channel_name, room_alias, topic)")
    case True
    from mirror_channel_returned[OF p[unfolded True]]
    obtain room_id t2 s where
      t1: "t1 = t2 @ name_topic_avatar_calls cfg room_id channel_name topic @ s"
      and a: "\<forall>url. room_avatar_url cfg = Some url \<and> url \<noteq> [] \<longrightarrow> startswith url ''mxc''"
      by blast
    obtain s' where "snd (mirror_channels_loop w cfg message bot_id community rooms rest t1)
        = t1 @ s'"
      using fail_stop_extends[OF fs_mirror_channels_loop] by blast
    with l have "t' = t1 @ s'" by simp
    with t1 a show ?thesis by auto
  next
    case False
    with Cons.prems(2) have "(channel_id, channel_name, room_alias, topic) \<in> set rest" by simp
    from Cons.IH[OF l this] show ?thesis .
  qed
qed

lemma mirror_new_channels_loop:
  assumes "mirror_new_channels w conn cfg message seen t = (Inr new, t1)"
  shows "\<exists>bot_id community rooms t0.
           mirror_channels_loop w cfg message bot_id community rooms new t0 = (Inr (), t1)"
  using assms unfolding mirror_new_channels_def io_bind_def io_return_def
  by (auto split: prod.splits sum.splits)

lemma sweep_history_extends:
  assumes "mirror_new_channels w conn cfg (sweep_message conn cfg message) (ledger_of mem) t
             = (r, t1)"
  shows "\<exists>s. snd (fst (mirror_slack_channels w conn cfg message mem t)) = t1 @ s"
proof -
  obtain s where "snd (respond w (sweep_message conn cfg message) ''Finished adding all rooms.''
      None t1) = t1 @ s"
    using fail_stop_extends[OF fs_respond] by blast
  then show ?thesis
    using assms by (cases r) (auto simp: mirror_slack_channels_def Let_def)
qed

text \<open>
  C2, as the claim states it, fails. An admin has sent \<open>!skip avatar\<close> in the room,
  so its stored options hold \<open>skip_room_avatar = True\<close>; the sweep, with
  \<open>room_avatar_url\<close> configured, still sends the \<open>m.room.avatar\<close> state event
  to that room.
\<close>

theorem sweep_sets_avatar_despite_skip_counterexample:
  "picard_options skip_avatar_memory ''!r1:example.org'' = Some [(''skip_room_avatar'', True)]
   \<and> fst (mirror_slack_channels friendly_world example_connector avatar_config None
            skip_avatar_memory [])
     = (Inr (),
        [SlackGetUserId ''bot'', SlackChannelsList, SlackChannelsList,
         SlackConversationsMembers ''C1'', GetRoomId ''#br-general:example.org'',
         SetRoomName ''!r1:example.org'' ''br-general'',
         SetRoomTopic ''!r1:example.org'' ''talk'',
         SendStateEvent ''!r1:example.org'' ''m.room.avatar''
           (JObj [(''url'', JStr ''mxc://x/a'')]),
         InviteUser ''!r1:example.org'' ''@as:example.org'',
         GetPowerLevels ''!r1:example.org'',
         Respond ''main''
           ''link --channel_id C1 --room !r1:example.org --slack_bot_token xb --slack_user_token xu''
           (Some ''bridge''),
         Respond ''main'' ''Finished Adding room #br-general:example.org'' None,
         Respond ''main'' ''Finished adding all rooms.'' None])"
  by (simp add: sweep_defs io_defs friendly_world_def example_connector_def avatar_config_def
      example_config_def example_channels_def empty_memory_def skip_avatar_memory_def
      room_skip_command_def quiet_world_def admin_config_def Let_def)

text \<open>
  C2, amended. The sweep does not read the room options: whatever is stored there, it
  returns the same result and issues the same calls. In a sweep whose loop runs to its
  end, for every discovered channel there is a room on which the sweep has issued the
  name call with the prefixed channel name, the topic call if the channel's topic is not
  empty, and the avatar state event if \<open>room_avatar_url\<close> is configured and not
  empty. In a channel's pass, once the bot is joined and the room resolved, the calls
  issued next are those of lines 415-423; when the name and topic calls succeed these
  are the name call, then the topic call exactly when the topic is not empty, then the
  avatar state event exactly when \<open>room_avatar_url\<close> is configured, not empty, and an
  \<open>mxc\<close> URI.
\<close>

theorem sweep_ignores_room_options:
  "fst (mirror_slack_channels w conn cfg message (mem\<lparr>picard_options := opts\<rparr>) t)
     = fst (mirror_slack_channels w conn cfg message mem t)
   \<and> (\<forall>new t1 channel_id channel_name room_alias topic.
         mirror_new_channels w conn cfg (sweep_message conn cfg message) (ledger_of mem) t
           = (Inr new, t1)
         \<and> (channel_id, channel_name, room_alias, topic) \<in> set new \<longrightarrow>
         (\<exists>room_id.
            SetRoomName room_id
              ((case room_name_prefix cfg of None \<Rightarrow> room_alias_prefix cfg | Some p \<Rightarrow> p)
                 @ channel_name)
              \<in> set (snd (fst (mirror_slack_channels w conn cfg message mem t)))
            \<and> (topic \<noteq> [] \<longrightarrow>
                 SetRoomTopic room_id topic
                   \<in> set (snd (fst (mirror_slack_channels w conn cfg message mem t))))
            \<and> (\<forall>url. room_avatar_url cfg = Some url \<and> url \<noteq> [] \<longrightarrow>
                 SendStateEvent room_id ''m.room.avatar'' (JObj [(''url'', JStr url)])
                   \<in> set (snd (fst (mirror_slack_channels w conn cfg message mem t))))))
   \<and> (join_bot_to_channel w cfg bot_id channel_id h = (Inr (), h1)
        \<and> intent_self_in_room w room_alias h1 = (Inr room_id, h2) \<longrightarrow>
       (\<exists>s. snd (mirror_channel w cfg pass_message bot_id community rooms
                    (channel_id, channel_name, room_alias, topic) h)
              = snd (set_name_topic_avatar w cfg room_id channel_name topic h2) @ s))
   \<and> ((\<forall>t' n. \<exists>r. w t' (SetRoomName room_id n) = Inr r)
        \<and> (\<forall>t' n. \<exists>r. w t' (SetRoomTopic room_id n) = Inr r) \<longrightarrow>
       snd (set_name_topic_avatar w cfg room_id channel_name topic h2) =
         h2 @ [SetRoomName room_id
                 ((case room_name_prefix cfg of None \<Rightarrow> room_alias_prefix cfg | Some p \<Rightarrow> p)
                    @ channel_name)]
            @ (if topic \<noteq> [] then [SetRoomTopic room_id topic] else [])
            @ (case room_avatar_url cfg of
                 None \<Rightarrow> []
               | Some avatar_url \<Rightarrow>
                   if avatar_url \<noteq> [] \<and> startswith avatar_url ''mxc''
                   then [SendStateEvent room_id ''m.room.avatar''
                           (JObj [(''url'', JStr avatar_url)])]
                   else []))"
proof (intro conjI allI impI)
  show "fst (mirror_slack_channels w conn cfg message (mem\<lparr>picard_options := opts\<rparr>) t)
     = fst (mirror_slack_channels w conn cfg message mem t)"
    by (rule sweep_ignores_options)
next
  fix new t1 channel_id channel_name room_alias topic
  assume a: "mirror_new_channels w conn cfg (sweep_message conn cfg message) (ledger_of mem) t
           = (Inr new, t1)
         \<and> (channel_id, channel_name, room_alias, topic) \<in> set new"
  then obtain bot_id community rooms t0 where
    l: "mirror_channels_loop w cfg (sweep_message conn cfg message) bot_id community rooms new t0
          = (Inr (), t1)"
    using mirror_new_channels_loop by blast
  from loop_returned_calls[OF l] a obtain room_id where
    sub: "set (name_topic_avatar_calls cfg room_id channel_name topic) \<subseteq> set t1"
    and av: "\<forall>url. room_avatar_url cfg = Some url \<and> url \<noteq> [] \<longrightarrow> startswith url ''mxc''"
    by blast
  obtain s where ext: "snd (fst (mirror_slack_channels w conn cfg message mem t)) = t1 @ s"
    using sweep_history_extends a by blast
  from sub ext have sub': "set (name_topic_avatar_calls cfg room_id channel_name topic)
      \<subseteq> set (snd (fst (mirror_slack_channels w conn cfg message mem t)))"
    by auto
  show "\<exists>room_id.
            SetRoomName room_id
              ((case room_name_prefix cfg of None \<Rightarrow> room_alias_prefix cfg | Some p \<Rightarrow> p)
                 @ channel_name)
              \<in> set (snd (fst (mirror_slack_channels w conn cfg message mem t)))
            \<and> (topic \<noteq> [] \<longrightarrow>
                 SetRoomTopic room_id topic
                   \<in> set (snd (fst (mirror_slack_channels w conn cfg message mem t))))
            \<and> (\<forall>url. room_avatar_url cfg = Some url \<and> url \<noteq> [] \<longrightarrow>
                 SendStateEvent room_id ''m.room.avatar'' (JObj [(''url'', JStr url)])
                   \<in> set (snd (fst (mirror_slack_channels w conn cfg message mem t))))"
    apply (rule exI[where x = room_id])
    using name_topic_avatar_calls_members[OF av, of room_id channel_name topic] sub'
    by blast
next
  assume "join_bot_to_channel w cfg bot_id channel_id h = (Inr (), h1)
        \<and> intent_self_in_room w room_alias h1 = (Inr room_id, h2)"
  then show "\<exists>s. snd (mirror_channel w cfg pass_message bot_id community rooms
                    (channel_id, channel_name, room_alias, topic) h)
              = snd (set_name_topic_avatar w cfg room_id channel_name topic h2) @ s"
    using mirror_channel_after_resolution by blast
next
  assume "(\<forall>t' n. \<exists>r. w t' (SetRoomName room_id n) = Inr r)
        \<and> (\<forall>t' n. \<exists>r. w t' (SetRoomTopic room_id n) = Inr r)"
  then show "snd (set_name_topic_avatar w cfg room_id channel_name topic h2) =
         h2 @ [SetRoomName room_id
                 ((case room_name_prefix cfg of None \<Rightarrow> room_alias_prefix cfg | Some p \<Rightarrow> p)
                    @ channel_name)]
            @ (if topic \<noteq> [] then [SetRoomTopic room_id topic] else [])
            @ (case room_avatar_url cfg of
                 None \<Rightarrow> []
               | Some avatar_url \<Rightarrow>
                   if avatar_url \<noteq> [] \<and> startswith avatar_url ''mxc''
                   then [SendStateEvent room_id ''m.room.avatar''
                           (JObj [(''url'', JStr avatar_url)])]
                   else [])"
    using set_name_topic_avatar_calls[of w room_id cfg channel_name topic h2]
    by (simp add: name_topic_avatar_calls_def)
qed

theorem sweep_ignores_room_options_witness:
  "mirror_new_channels friendly_world example_connector avatar_config
      (sweep_message example_connector avatar_config None) (ledger_of skip_avatar_memory) []
     = (Inr [(''C1'', ''general'', ''#br-general:example.org'', ''talk'')],
        [SlackGetUserId ''bot'', SlackChannelsList, SlackChannelsList,
         SlackConversationsMembers ''C1'', GetRoomId ''#br-general:example.org'',
         SetRoomName ''!r1:example.org'' ''br-general'',
         SetRoomTopic ''!r1:example.org'' ''talk'',
         SendStateEvent ''!r1:example.org'' ''m.room.avatar''
           (JObj [(''url'', JStr ''mxc://x/a'')]),
         InviteUser ''!r1:example.org'' ''@as:example.org'',
         GetPowerLevels ''!r1:example.org'',
         Respond ''main''
           ''link --channel_id C1 --room !r1:example.org --slack_bot_token xb --slack_user_token xu''
           (Some ''bridge''),
         Respond ''main'' ''Finished Adding room #br-general:example.org'' None])
   \<and> (\<exists>room_id.
         SetRoomName room_id ''br-general''
           \<in> set (snd (fst (mirror_slack_channels friendly_world example_connector avatar_config
                               None skip_avatar_memory [])))
         \<and> SetRoomTopic room_id ''talk''
           \<in> set (snd (fst (mirror_slack_channels friendly_world example_connector avatar_config
                               None skip_avatar_memory [])))
         \<and> SendStateEvent room_id ''m.room.avatar'' (JObj [(''url'', JStr ''mxc://x/a'')])
           \<in> set (snd (fst (mirror_slack_channels friendly_world example_connector avatar_config
                               None skip_avatar_memory []))))
   \<and> (\<exists>s. snd (mirror_channel friendly_world avatar_config cron_message (Some ''B1'') None []
                  (''C1'', ''general'', ''#br-general:example.org'', ''talk'') [])
            = snd (set_name_topic_avatar friendly_world avatar_config ''!r1:example.org''
                     ''general'' ''talk''
                     [SlackConversationsMembers ''C1'', GetRoomId ''#br-general:example.org''])
              @ s)
   \<and> snd (set_name_topic_avatar friendly_world avatar_config ''!r1:example.org''
             ''general'' ''talk'' [])
       = [SetRoomName ''!r1:example.org'' ''br-general'',
          SetRoomTopic ''!r1:example.org'' ''talk'',
          SendStateEvent ''!r1:example.org'' ''m.room.avatar''
            (JObj [(''url'', JStr ''mxc://x/a'')])]"
proof -
  let ?e = "(''C1'', ''general'', ''#br-general:example.org'', ''talk'')"
  let ?t1 = "[SlackGetUserId ''bot'', SlackChannelsList, SlackChannelsList,
         SlackConversationsMembers ''C1'', GetRoomId ''#br-general:example.org'',
         SetRoomName ''!r1:example.org'' ''br-general'',
         SetRoomTopic ''!r1:example.org'' ''talk'',
         SendStateEvent ''!r1:example.org'' ''m.room.avatar''
           (JObj [(''url'', JStr ''mxc://x/a'')]),
         InviteUser ''!r1:example.org'' ''@as:example.org'',
         GetPowerLevels ''!r1:example.org'',
         Respond ''main''
           ''link --channel_id C1 --room !r1:example.org --slack_bot_token xb --slack_user_token xu''
           (Some ''bridge''),
         Respond ''main'' ''Finished Adding room #br-general:example.org'' None]"
  let ?R = "snd (fst (mirror_slack_channels friendly_world example_connector avatar_config
                        None skip_avatar_memory []))"
  have r: "mirror_new_channels friendly_world example_connector avatar_config
      (sweep_message example_connector avatar_config None) (ledger_of skip_avatar_memory) []
     = (Inr [?e], ?t1)"
    by (simp add: sweep_defs io_defs friendly_world_def example_connector_def avatar_config_def
      example_config_def example_channels_def empty_memory_def skip_avatar_memory_def
      room_skip_command_def quiet_world_def admin_config_def Let_def)
  have m: "?e \<in> set [?e]" by simp
  have j: "join_bot_to_channel friendly_world avatar_config (Some ''B1'') ''C1'' []
      = (Inr (), [SlackConversationsMembers ''C1''])"
    by (simp add: sweep_defs io_defs friendly_world_def)
  have i: "intent_self_in_room friendly_world ''#br-general:example.org''
        [SlackConversationsMembers ''C1'']
      = (Inr ''!r1:example.org'',
         [SlackConversationsMembers ''C1'', GetRoomId ''#br-general:example.org''])"
    by (simp add: sweep_defs io_defs friendly_world_def)
  have n: "\<forall>t' n. \<exists>r. friendly_world t' (SetRoomName ''!r1:example.org'' n) = Inr r"
    by (simp add: friendly_world_def)
  have tp: "\<forall>t' n. \<exists>r. friendly_world t' (SetRoomTopic ''!r1:example.org'' n) = Inr r"
    by (simp add: friendly_world_def)
  note T = sweep_ignores_room_options[where w=friendly_world and conn=example_connector
      and cfg=avatar_config and message=None and mem=skip_avatar_memory and t="[]"
      and bot_id="Some ''B1''" and channel_id="''C1''" and h="[]"
      and ?h1.0="[SlackConversationsMembers ''C1'']" and room_alias="''#br-general:example.org''"
      and room_id="''!r1:example.org''"
      and ?h2.0="[SlackConversationsMembers ''C1'', GetRoomId ''#br-general:example.org'']"
      and pass_message=cron_message and community=None and rooms="[]"
      and channel_name="''general''" and topic="''talk''"]
  note U = sweep_ignores_room_options[where w=friendly_world and cfg=avatar_config
      and room_id="''!r1:example.org''" and ?h2.0="[]"
      and channel_name="''general''" and topic="''talk''"]
  from T[THEN conjunct2, THEN conjunct1, THEN spec, THEN spec, THEN spec, THEN spec, THEN spec,
        THEN spec, THEN mp, OF conjI[OF r m]]
  obtain room_id where
    a1: "SetRoomName room_id
          ((case room_name_prefix avatar_config of
              None \<Rightarrow> room_alias_prefix avatar_config | Some p \<Rightarrow> p) @ ''general'') \<in> set ?R"
    and a2: "''talk'' \<noteq> [] \<longrightarrow> SetRoomTopic room_id ''talk'' \<in> set ?R"
    and a3: "\<forall>url. room_avatar_url avatar_config = Some url \<and> url \<noteq> [] \<longrightarrow>
          SendStateEvent room_id ''m.room.avatar'' (JObj [(''url'', JStr url)]) \<in> set ?R"
    by (elim exE conjE)
  have b1: "SetRoomName room_id ''br-general'' \<in> set ?R"
    using a1 by (simp add: avatar_config_def example_config_def)
  have b2: "SetRoomTopic room_id ''talk'' \<in> set ?R"
    using a2 by simp
  have "room_avatar_url avatar_config = Some ''mxc://x/a'' \<and> ''mxc://x/a'' \<noteq> []"
    by (simp add: avatar_config_def)
  with a3 have b3: "SendStateEvent room_id ''m.room.avatar'' (JObj [(''url'', JStr ''mxc://x/a'')])
      \<in> set ?R"
    by blast
  have c2: "\<exists>room_id. SetRoomName room_id ''br-general'' \<in> set ?R
         \<and> SetRoomTopic room_id ''talk'' \<in> set ?R
         \<and> SendStateEvent room_id ''m.room.avatar'' (JObj [(''url'', JStr ''mxc://x/a'')])
              \<in> set ?R"
    by (rule exI[where x = room_id]) (intro conjI b1 b2 b3)
  have c3: "\<exists>s. snd (mirror_channel friendly_world avatar_config cron_message (Some ''B1'') None []
                  ?e [])
            = snd (set_name_topic_avatar friendly_world avatar_config ''!r1:example.org''
                     ''general'' ''talk''
                     [SlackConversationsMembers ''C1'', GetRoomId ''#br-general:example.org''])
              @ s"
    by (rule T[THEN conjunct2, THEN conjunct2, THEN conjunct1, THEN mp, OF conjI[OF j i]])
  have c4: "snd (set_name_topic_avatar friendly_world avatar_config ''!r1:example.org''
             ''general'' ''talk'' [])
       = [SetRoomName ''!r1:example.org'' ''br-general'',
          SetRoomTopic ''!r1:example.org'' ''talk'',
          SendStateEvent ''!r1:example.org'' ''m.room.avatar''
            (JObj [(''url'', JStr ''mxc://x/a'')])]"
    unfolding U[THEN conjunct2, THEN conjunct2, THEN conjunct2, THEN mp, OF conjI[OF n tp]]
    by (simp add: avatar_config_def example_config_def startswith_def)
  show ?thesis
    by (intro conjI) (rule r c2 c3 c4)+
qed

section \<open>Failures inside the sweep\<close>











end
